theory Spec2Isabelle
  imports Complex_Main "HOL-Library.Sublist" "HOL-Library.AList"
begin

section \<open>Python strings and the regular expressions of \<open>clean_and_parse_response\<close>\<close>

text \<open>
  A Python \<open>str\<close> is a sequence of Unicode code points, so a string is a list of
  natural numbers here; \<open>str ''...''\<close> writes a literal.
\<close>

type_synonym ustr = "nat list"

definition str :: "string \<Rightarrow> ustr" where
  "str s = map of_char s"

abbreviation QUOTE :: nat where "QUOTE \<equiv> 34"
abbreviation COMMA :: nat where "COMMA \<equiv> 44"
abbreviation MINUS :: nat where "MINUS \<equiv> 45"
abbreviation COLON :: nat where "COLON \<equiv> 58"
abbreviation LBRACKET :: nat where "LBRACKET \<equiv> 91"
abbreviation BACKSLASH :: nat where "BACKSLASH \<equiv> 92"
abbreviation RBRACKET :: nat where "RBRACKET \<equiv> 93"
abbreviation BACKTICK :: nat where "BACKTICK \<equiv> 96"
abbreviation LBRACE :: nat where "LBRACE \<equiv> 123"
abbreviation RBRACE :: nat where "RBRACE \<equiv> 125"

text \<open>
  The class \<open>\s\<close> of a \<open>str\<close> pattern: the Unicode whitespace code points
  (U+0009..U+000D, U+001C..U+0020, U+0085, U+00A0, U+1680, U+2000..U+200A, U+2028,
  U+2029, U+202F, U+205F, U+3000).
\<close>

definition is_space :: "nat \<Rightarrow> bool" where
  "is_space c \<longleftrightarrow>
     (9 \<le> c \<and> c \<le> 13) \<or> (28 \<le> c \<and> c \<le> 32) \<or> c = 133 \<or> c = 160 \<or> c = 5760 \<or>
     (8192 \<le> c \<and> c \<le> 8202) \<or> c = 8232 \<or> c = 8233 \<or> c = 8239 \<or> c = 8287 \<or> c = 12288"

text \<open>
  \<open>re.sub(lit + r'\s*', '', s)\<close> for a non-empty literal \<open>lit\<close>: the leftmost
  occurrence of the literal is deleted together with all whitespace after it, and the
  search goes on behind the match. The source uses it with the literals of lines 43 and 44.
\<close>

function re_sub_delete :: "ustr \<Rightarrow> ustr \<Rightarrow> ustr" where
  "re_sub_delete lit [] = []"
| "re_sub_delete lit (c # cs) =
     (if lit \<noteq> [] \<and> prefix lit (c # cs)
      then re_sub_delete lit (dropWhile is_space (drop (length lit) (c # cs)))
      else c # re_sub_delete lit cs)"
  by pat_completeness auto
termination
proof (relation "measure (\<lambda>(lit, s). length s)")
  show "wf (measure (\<lambda>(lit, s). length s))" by simp
next
  fix lit :: ustr and c cs
  assume "lit \<noteq> [] \<and> prefix lit (c # cs)"
  then obtain a l where "lit = a # l" by (cases lit) auto
  then have "length (drop (length lit) (c # cs)) \<le> length cs" by simp
  moreover have "length (dropWhile is_space (drop (length lit) (c # cs)))
      \<le> length (drop (length lit) (c # cs))"
    by (rule length_dropWhile_le)
  ultimately show "((lit, dropWhile is_space (drop (length lit) (c # cs))), (lit, c # cs))
      \<in> measure (\<lambda>(lit, s). length s)"
    by simp
next
  fix lit :: ustr and c cs
  show "((lit, cs), (lit, c # cs)) \<in> measure (\<lambda>(lit, s). length s)" by simp
qed

definition FENCE_JSON :: ustr where "FENCE_JSON = str ''```json''"
definition FENCE :: ustr where "FENCE = str ''```''"

text \<open>
  \<open>re.search(r'\{[\s\S]*\}', text, re.DOTALL)\<close>: the span from the first opening
  brace to the last closing brace behind it, or no match.
\<close>

definition search_braces :: "ustr \<Rightarrow> ustr option" where
  "search_braces t =
     (let s = dropWhile (\<lambda>c. c \<noteq> LBRACE) t in
      if s \<noteq> [] \<and> RBRACE \<in> set s
      then Some (rev (dropWhile (\<lambda>c. c \<noteq> RBRACE) (rev s)))
      else None)"

text \<open>
  \<open>re.sub(r',\s*([\]}])', r'\1', json_str)\<close>: a comma followed by whitespace and a
  closing bracket or brace is replaced by that closing character.
\<close>

definition is_closer :: "nat \<Rightarrow> bool" where
  "is_closer c \<longleftrightarrow> c = RBRACKET \<or> c = RBRACE"

function repair_trailing_commas :: "ustr \<Rightarrow> ustr" where
  "repair_trailing_commas [] = []"
| "repair_trailing_commas (c # cs) =
     (if c = COMMA then
        (case dropWhile is_space cs of
           [] \<Rightarrow> c # repair_trailing_commas cs
         | d # ds \<Rightarrow> if is_closer d then d # repair_trailing_commas ds
                     else c # repair_trailing_commas cs)
      else c # repair_trailing_commas cs)"
  by pat_completeness auto
termination
proof (relation "measure length")
  show "wf (measure length)" by simp
next
  fix c :: nat and cs d ds
  assume "dropWhile is_space cs = d # ds"
  then have "length (d # ds) \<le> length cs"
    using length_dropWhile_le [of is_space cs] by simp
  then show "(ds, c # cs) \<in> measure length" by simp
qed simp_all

section \<open>JSON values and \<open>json.loads\<close>\<close>

text \<open>
  The values \<open>json.loads\<close> builds. A \<open>dict\<close> is an association list in insertion
  order with distinct keys; a \<open>float\<close> is kept as the literal that denotes it.
\<close>

datatype json =
    JNull
  | JBool bool
  | JInt int
  | JFloat ustr
  | JString ustr
  | JArray "json list"
  | JObject "(ustr \<times> json) list"

datatype token =
    TLBrace | TRBrace | TLBracket | TRBracket | TComma | TColon
  | TString ustr | TInt int | TFloat ustr | TTrue | TFalse | TNull

definition is_json_ws :: "nat \<Rightarrow> bool" where
  "is_json_ws c \<longleftrightarrow> c = 32 \<or> c = 9 \<or> c = 10 \<or> c = 13"

definition is_digit :: "nat \<Rightarrow> bool" where
  "is_digit c \<longleftrightarrow> 48 \<le> c \<and> c \<le> 57"

definition hex_val :: "nat \<Rightarrow> nat option" where
  "hex_val c =
     (if 48 \<le> c \<and> c \<le> 57 then Some (c - 48)
      else if 97 \<le> c \<and> c \<le> 102 then Some (c - 87)
      else if 65 \<le> c \<and> c \<le> 70 then Some (c - 55)
      else None)"

fun hex4 :: "ustr \<Rightarrow> nat option" where
  "hex4 (a # b # c # d # _) =
     (case (hex_val a, hex_val b, hex_val c, hex_val d) of
        (Some w, Some x, Some y, Some z) \<Rightarrow> Some (((w * 16 + x) * 16 + y) * 16 + z)
      | _ \<Rightarrow> None)"
| "hex4 _ = None"

definition unescape :: "nat \<Rightarrow> nat option" where
  "unescape e =
     (if e = QUOTE then Some QUOTE
      else if e = BACKSLASH then Some BACKSLASH
      else if e = 47 then Some 47
      else if e = 98 then Some 8
      else if e = 102 then Some 12
      else if e = 110 then Some 10
      else if e = 114 then Some 13
      else if e = 116 then Some 9
      else None)"

definition low_surrogate_at :: "ustr \<Rightarrow> nat option" where
  "low_surrogate_at s =
     (case s of
        b # u # hs \<Rightarrow>
          if b = BACKSLASH \<and> u = 117 then
            (case hex4 hs of
               Some l \<Rightarrow> if 56320 \<le> l \<and> l \<le> 57343 then Some l else None
             | None \<Rightarrow> None)
          else None
      | _ \<Rightarrow> None)"

definition consc :: "nat \<Rightarrow> (ustr \<times> ustr) option \<Rightarrow> (ustr \<times> ustr) option" where
  "consc c r = (case r of None \<Rightarrow> None | Some (s, rest) \<Rightarrow> Some (c # s, rest))"

text \<open>
  The body of a string literal, read from behind its opening quote (strict mode: a raw
  control character is an error). The result is the decoded string and the text behind the
  closing quote.
\<close>

function scan_string :: "ustr \<Rightarrow> (ustr \<times> ustr) option" where
  "scan_string [] = None"
| "scan_string (c # cs) =
     (if c = QUOTE then Some ([], cs)
      else if c = BACKSLASH then
        (case cs of
           [] \<Rightarrow> None
         | e # es \<Rightarrow>
             if e = 117 then
               (case hex4 es of
                  None \<Rightarrow> None
                | Some u \<Rightarrow>
                    if 55296 \<le> u \<and> u \<le> 56319 then
                      (case low_surrogate_at (drop 4 es) of
                         Some l \<Rightarrow>
                           consc (65536 + (u - 55296) * 1024 + (l - 56320))
                             (scan_string (drop 10 es))
                       | None \<Rightarrow> consc u (scan_string (drop 4 es)))
                    else consc u (scan_string (drop 4 es)))
             else
               (case unescape e of
                  None \<Rightarrow> None
                | Some d \<Rightarrow> consc d (scan_string es)))
      else if c < 32 then None
      else consc c (scan_string cs))"
  by pat_completeness auto
termination
  by (relation "measure length") auto

definition dec_val :: "ustr \<Rightarrow> int" where
  "dec_val ds = foldl (\<lambda>a d. a * 10 + (int d - 48)) 0 ds"

definition lex_exponent :: "ustr \<Rightarrow> ustr \<times> ustr" where
  "lex_exponent s =
     (case s of
        [] \<Rightarrow> ([], s)
      | e # r \<Rightarrow>
          if e = 101 \<or> e = 69 then
            (let sg = (case r of [] \<Rightarrow> [] | x # _ \<Rightarrow> if x = 43 \<or> x = MINUS then [x] else []);
                 r' = drop (length sg) r;
                 ds = takeWhile is_digit r'
             in if ds = [] then ([], s) else (e # sg @ ds, dropWhile is_digit r'))
          else ([], s))"

definition lex_fraction :: "ustr \<Rightarrow> ustr \<times> ustr" where
  "lex_fraction s =
     (case s of
        [] \<Rightarrow> ([], s)
      | d # r \<Rightarrow>
          if d = 46 \<and> takeWhile is_digit r \<noteq> []
          then (d # takeWhile is_digit r, dropWhile is_digit r)
          else ([], s))"

text \<open>
  A number at the head of the text, after the pattern
  \<open>-?(0|[1-9][0-9]*)(\.[0-9]+)?([eE][-+]?[0-9]+)?\<close>: an \<open>int\<close> when it has neither
  fraction nor exponent, a \<open>float\<close> otherwise.
\<close>

definition lex_number :: "ustr \<Rightarrow> (token \<times> ustr) option" where
  "lex_number s =
     (let sg = (case s of [] \<Rightarrow> [] | c # _ \<Rightarrow> if c = MINUS then [c] else []);
          s1 = drop (length sg) s;
          ds = takeWhile is_digit s1
      in if ds = [] then None
         else
           let ip = (if hd ds = 48 then [48] else ds);
               (frac, s3) = lex_fraction (drop (length ip) s1);
               (ex, s4) = lex_exponent s3
           in if frac = [] \<and> ex = []
              then Some (TInt (if sg = [] then dec_val ip else - dec_val ip), s4)
              else Some (TFloat (sg @ ip @ frac @ ex), s4))"

definition const :: "token \<Rightarrow> token list option \<Rightarrow> token list option" where
  "const t r = (case r of None \<Rightarrow> None | Some ts \<Rightarrow> Some (t # ts))"

lemma scan_string_length:
  "scan_string s = Some (x, rest) \<Longrightarrow> length rest < length s"
proof (induction "length s" arbitrary: s x rest rule: less_induct)
  case less
  have step: "\<And>t y. scan_string t = Some (y, rest) \<Longrightarrow> length t < length s \<Longrightarrow> length rest < length t"
    using less.hyps by blast
  show ?case
  proof (cases s)
    case Nil
    with less.prems show ?thesis by simp
  next
    case (Cons c cs)
    with less.prems show ?thesis
      by (auto simp: consc_def split: if_splits option.splits list.splits dest!: step)
  qed
qed

lemma lex_exponent_length: "lex_exponent s = (e, r) \<Longrightarrow> length r \<le> length s"
  by (auto simp: lex_exponent_def Let_def split: list.splits if_splits
      intro: le_trans [OF length_dropWhile_le])

lemma lex_fraction_length: "lex_fraction s = (f, r) \<Longrightarrow> length r \<le> length s"
  by (auto simp: lex_fraction_def split: list.splits if_splits
      intro: le_trans [OF length_dropWhile_le])

lemma lex_number_length:
  assumes "lex_number s = Some (t, r)"
  shows "length r < length s"
proof -
  define sg where "sg = (case s of [] \<Rightarrow> [] | c # _ \<Rightarrow> if c = MINUS then [c] else [])"
  define s1 where "s1 = drop (length sg) s"
  define ds where "ds = takeWhile is_digit s1"
  define ip where "ip = (if hd ds = 48 then [48] else ds)"
  obtain frac s3 where f: "lex_fraction (drop (length ip) s1) = (frac, s3)"
    by (cases "lex_fraction (drop (length ip) s1)")
  obtain ex s4 where e: "lex_exponent s3 = (ex, s4)"
    by (cases "lex_exponent s3")
  from assms have ne: "ds \<noteq> []"
    by (auto simp: lex_number_def Let_def sg_def s1_def ds_def split: if_splits)
  from assms ne f e have r: "r = s4"
    by (auto simp: lex_number_def Let_def sg_def s1_def ds_def ip_def split: if_splits)
  from ne have "s1 \<noteq> []" by (auto simp: ds_def)
  moreover from ne have "ip \<noteq> []" by (simp add: ip_def)
  ultimately have "length (drop (length ip) s1) < length s1"
    by (cases ip; cases s1) auto
  moreover have "length s1 \<le> length s" by (simp add: s1_def)
  moreover note lex_fraction_length [OF f] lex_exponent_length [OF e]
  ultimately have "length s4 < length s" by linarith
  then show ?thesis by (simp add: r)
qed

text \<open>
  The tokens of a JSON text. Between tokens only the four JSON whitespace characters are
  allowed; \<open>NaN\<close>, \<open>Infinity\<close> and \<open>-Infinity\<close> are accepted as floats, as
  \<open>json.loads\<close> does.
\<close>

function tokenize :: "ustr \<Rightarrow> token list option" where
  "tokenize [] = Some []"
| "tokenize (c # cs) =
     (if is_json_ws c then tokenize cs
      else if c = LBRACE then const TLBrace (tokenize cs)
      else if c = RBRACE then const TRBrace (tokenize cs)
      else if c = LBRACKET then const TLBracket (tokenize cs)
      else if c = RBRACKET then const TRBracket (tokenize cs)
      else if c = COMMA then const TComma (tokenize cs)
      else if c = COLON then const TColon (tokenize cs)
      else if c = QUOTE then
        (case scan_string cs of
           None \<Rightarrow> None
         | Some (s, rest) \<Rightarrow> const (TString s) (tokenize rest))
      else if prefix (str ''null'') (c # cs) then const TNull (tokenize (drop 3 cs))
      else if prefix (str ''true'') (c # cs) then const TTrue (tokenize (drop 3 cs))
      else if prefix (str ''false'') (c # cs) then const TFalse (tokenize (drop 4 cs))
      else
        (case lex_number (c # cs) of
           Some (t, rest) \<Rightarrow> const t (tokenize rest)
         | None \<Rightarrow>
             if prefix (str ''NaN'') (c # cs)
             then const (TFloat (str ''NaN'')) (tokenize (drop 2 cs))
             else if prefix (str ''Infinity'') (c # cs)
             then const (TFloat (str ''Infinity'')) (tokenize (drop 7 cs))
             else if prefix (str ''-Infinity'') (c # cs)
             then const (TFloat (str ''-Infinity'')) (tokenize (drop 8 cs))
             else None))"
  by pat_completeness auto
termination
  by (relation "measure length")
    (auto dest: scan_string_length lex_number_length intro: less_imp_le_nat)

text \<open>
  The parser reads the tokens from left to right with a stack of the containers that are
  still open. \<open>d[k] = v\<close> on a \<open>dict\<close> keeps the position of a key that is already
  there, so that a repeated key takes the last value.
\<close>

datatype frame = FArray "json list" | FObject "(ustr \<times> json) list" "ustr option"

datatype phase = PValue | PValueOrEnd | PKey | PKeyOrEnd | PColon | PAfter | PDone json

type_synonym pstate = "phase \<times> frame list"

fun complete :: "json \<Rightarrow> frame list \<Rightarrow> pstate option" where
  "complete v [] = Some (PDone v, [])"
| "complete v (FArray vs # st) = Some (PAfter, FArray (vs @ [v]) # st)"
| "complete v (FObject kvs (Some k) # st) =
     Some (PAfter, FObject (AList.update k v kvs) None # st)"
| "complete v (FObject kvs None # st) = None"

fun value_token :: "token \<Rightarrow> frame list \<Rightarrow> pstate option" where
  "value_token TLBracket st = Some (PValueOrEnd, FArray [] # st)"
| "value_token TLBrace st = Some (PKeyOrEnd, FObject [] None # st)"
| "value_token (TString s) st = complete (JString s) st"
| "value_token (TInt i) st = complete (JInt i) st"
| "value_token (TFloat f) st = complete (JFloat f) st"
| "value_token TTrue st = complete (JBool True) st"
| "value_token TFalse st = complete (JBool False) st"
| "value_token TNull st = complete JNull st"
| "value_token _ st = None"

fun close_array :: "frame list \<Rightarrow> pstate option" where
  "close_array (FArray vs # st) = complete (JArray vs) st"
| "close_array _ = None"

fun close_object :: "frame list \<Rightarrow> pstate option" where
  "close_object (FObject kvs None # st) = complete (JObject kvs) st"
| "close_object _ = None"

fun open_key :: "token \<Rightarrow> frame list \<Rightarrow> pstate option" where
  "open_key (TString k) (FObject kvs None # st) = Some (PColon, FObject kvs (Some k) # st)"
| "open_key _ _ = None"

fun after_value :: "token \<Rightarrow> frame list \<Rightarrow> pstate option" where
  "after_value t (FArray vs # st) =
     (if t = TComma then Some (PValue, FArray vs # st)
      else if t = TRBracket then close_array (FArray vs # st)
      else None)"
| "after_value t (FObject kvs None # st) =
     (if t = TComma then Some (PKey, FObject kvs None # st)
      else if t = TRBrace then close_object (FObject kvs None # st)
      else None)"
| "after_value t _ = None"

fun step :: "token \<Rightarrow> pstate \<Rightarrow> pstate option" where
  "step t (PValue, st) = value_token t st"
| "step t (PValueOrEnd, st) = (if t = TRBracket then close_array st else value_token t st)"
| "step t (PKey, st) = open_key t st"
| "step t (PKeyOrEnd, st) = (if t = TRBrace then close_object st else open_key t st)"
| "step t (PColon, st) = (if t = TColon then Some (PValue, st) else None)"
| "step t (PAfter, st) = after_value t st"
| "step t (PDone v, st) = None"

fun parse_tokens :: "token list \<Rightarrow> pstate \<Rightarrow> pstate option" where
  "parse_tokens [] s = Some s"
| "parse_tokens (t # ts) s =
     (case step t s of None \<Rightarrow> None | Some s' \<Rightarrow> parse_tokens ts s')"

datatype error =
    JSONDecodeError | KeyError | ValueError | TypeError | AttributeError | IndexError
  | OverflowError | RequestException | GenerationError | UnicodeEncodeError

text \<open>
  \<open>json.loads\<close>: the whole text is one JSON value, or \<open>JSONDecodeError\<close>. The limits
  of the interpreter (recursion depth, digits of an integer) are not modelled; the errors
  they raise are caught by the same handler of \<open>clean_and_parse_response\<close>.
\<close>

definition loads :: "ustr \<Rightarrow> error + json" where
  "loads s =
     (case tokenize s of
        None \<Rightarrow> Inl JSONDecodeError
      | Some ts \<Rightarrow>
          (case parse_tokens ts (PValue, []) of
             Some (PDone v, _) \<Rightarrow> Inr v
           | _ \<Rightarrow> Inl JSONDecodeError))"

section \<open>The normalizer \<open>clean_and_parse_response\<close>\<close>

text \<open>The canned itinerary, written out three times in the source (lines 56, 75, 93).\<close>

definition default_draft :: json where
  "default_draft = JObject
     [(str ''destination'', JString (str ''Paris, France'')),
      (str ''itinerary'', JString (str
         ''1. Arrive and explore the city center.\<newline>2. Visit famous landmarks.\<newline>3. Enjoy local cuisine and culture.'')),
      (str ''cuisine'', JString (str ''1. Try local specialties and traditional dishes.'')),
      (str ''fun_fact'', JString (str ''This destination has amazing culture!'')),
      (str ''estimated_cost'', JObject
         [(str ''Accommodation'', JString (str ''$100-200/night'')),
          (str ''Food'', JString (str ''$50-100/day'')),
          (str ''Activities'', JString (str ''$30-80/day'')),
          (str ''Transportation'', JString (str ''$20-50/day'')),
          (str ''Total'', JString (str ''$500-1000 for 5 days''))]),
      (str ''best_time_to_visit'', JString (str ''Spring and fall offer the best weather'')),
      (str ''packing_tips'', JString (str
         ''1. Comfortable walking shoes.\<newline>2. Weather-appropriate clothing.\<newline>3. Essential travel items.''))]"

text \<open>
  \<open>print(s)\<close> writes to a standard output that encodes in UTF-8: a string with a
  surrogate code point (U+D800..U+DFFF) cannot be encoded, and \<open>print\<close> raises
  \<open>UnicodeEncodeError\<close>.
\<close>

definition is_surrogate :: "nat \<Rightarrow> bool" where
  "is_surrogate c \<longleftrightarrow> 55296 \<le> c \<and> c \<le> 57343"

definition encodable :: "ustr \<Rightarrow> bool" where
  "encodable s = list_all (\<lambda>c. \<not> is_surrogate c) s"

text \<open>
  The function returns the parsed value, or the canned itinerary when no braces are found,
  when \<open>json.loads\<close> raises \<open>JSONDecodeError\<close> and when anything else is raised.
  The handler of \<open>JSONDecodeError\<close> first prints the message of the exception, which
  is ASCII, and the first 500 characters of the candidate (lines 72 and 73); an exception
  raised by that \<open>print\<close> is raised inside a handler and leaves the function. The
  other prints write fixed text or the ASCII message of an exception.
\<close>

definition clean_and_parse_response :: "ustr \<Rightarrow> error + json" where
  "clean_and_parse_response text0 =
     (let text1 = re_sub_delete FENCE_JSON text0;
          text2 = re_sub_delete FENCE text1
      in case search_braces text2 of
           Some json_str \<Rightarrow>
             (case loads (repair_trailing_commas json_str) of
                Inr v \<Rightarrow> Inr v
              | Inl JSONDecodeError \<Rightarrow>
                  if encodable (take 500 (repair_trailing_commas json_str))
                  then Inr default_draft
                  else Inl UnicodeEncodeError
              | Inl _ \<Rightarrow> Inr default_draft)
         | None \<Rightarrow> Inr default_draft)"

fun is_dict :: "json \<Rightarrow> bool" where
  "is_dict (JObject kvs) = True"
| "is_dict _ = False"

fun keys :: "json \<Rightarrow> ustr list" where
  "keys (JObject kvs) = map fst kvs"
| "keys _ = []"

definition DRAFT_FIELDS :: "ustr list" where
  "DRAFT_FIELDS = [str ''destination'', str ''itinerary'', str ''cuisine'',
     str ''estimated_cost'', str ''best_time_to_visit'', str ''packing_tips'']"

section \<open>Python library functions used by the pipelines and the orchestrator\<close>

subsection \<open>Dictionaries and strings\<close>

text \<open>\<open>d.get(key, default)\<close>; a value that is not a \<open>dict\<close> has no \<open>get\<close>.\<close>

fun dict_get :: "json \<Rightarrow> ustr \<Rightarrow> json \<Rightarrow> error + json" where
  "dict_get (JObject kvs) k dflt = Inr (case map_of kvs k of Some v \<Rightarrow> v | None \<Rightarrow> dflt)"
| "dict_get _ k dflt = Inl AttributeError"

text \<open>\<open>s.strip()\<close> and \<open>s.split(',')[0]\<close>.\<close>

definition strip :: "ustr \<Rightarrow> ustr" where
  "strip s = rev (dropWhile is_space (rev (dropWhile is_space s)))"

definition split_comma_first :: "ustr \<Rightarrow> ustr" where
  "split_comma_first s = takeWhile (\<lambda>c. c \<noteq> COMMA) s"

text \<open>
  \<open>s.title()\<close> follows the Unicode character database and is a function of the
  world (\<open>str_title\<close>). For a string of ASCII characters it is the function below: a
  letter behind a letter is lowered, any other letter is raised.
\<close>

definition is_upper :: "nat \<Rightarrow> bool" where "is_upper c \<longleftrightarrow> 65 \<le> c \<and> c \<le> 90"
definition is_lower :: "nat \<Rightarrow> bool" where "is_lower c \<longleftrightarrow> 97 \<le> c \<and> c \<le> 122"

fun title_from :: "bool \<Rightarrow> ustr \<Rightarrow> ustr" where
  "title_from prev_cased [] = []"
| "title_from prev_cased (c # cs) =
     (if is_upper c then (if prev_cased then c + 32 else c) # title_from True cs
      else if is_lower c then (if prev_cased then c else c - 32) # title_from True cs
      else c # title_from False cs)"

definition title :: "ustr \<Rightarrow> ustr" where
  "title s = title_from False s"

text \<open>\<open>round(x)\<close> of a finite float: to the nearest integer, a tie to the even one.\<close>

definition py_round :: "rat \<Rightarrow> int" where
  "py_round x =
     (let f = \<lfloor>x\<rfloor>; d = x - of_int f
      in if d < 1 / 2 then f else if 1 / 2 < d then f + 1 else if even f then f else f + 1)"

text \<open>
  \<open>int(s)\<close> for a string: whitespace around, an optional sign, decimal digits with single
  underscores between them. The whitespace of \<open>int\<close> is that of \<open>strip\<close>
  without the separators U+001C..U+001F. More than 4300 digits are refused, the default
  limit of the interpreter. Decimal digits outside ASCII are not modelled.
\<close>

definition is_int_space :: "nat \<Rightarrow> bool" where
  "is_int_space c \<longleftrightarrow> is_space c \<and> \<not> (28 \<le> c \<and> c \<le> 31)"

fun digits_ok :: "ustr \<Rightarrow> bool" where
  "digits_ok [] = False"
| "digits_ok [c] = is_digit c"
| "digits_ok (c # d # cs) =
     (is_digit c \<and> (if d = 95 then cs \<noteq> [] \<and> is_digit (hd cs) \<and> digits_ok cs
                    else digits_ok (d # cs)))"

definition py_int :: "ustr \<Rightarrow> error + int" where
  "py_int s =
     (let t = rev (dropWhile is_int_space (rev (dropWhile is_int_space s)));
          sg = (case t of [] \<Rightarrow> [] | c # _ \<Rightarrow> if c = 43 \<or> c = MINUS then [c] else []);
          ds = drop (length sg) t
      in if digits_ok ds \<and> length (filter is_digit ds) \<le> 4300
         then Inr (if sg = [MINUS] then - dec_val (filter is_digit ds)
                   else dec_val (filter is_digit ds))
         else Inl ValueError)"

subsection \<open>Dates: \<open>datetime\<close>, \<open>timedelta\<close>, \<open>strptime\<close> and \<open>strftime\<close>\<close>

text \<open>
  A date is a triple of year, month and day; its ordinal counts the days from
  0001-01-01, which is day 1, in the proleptic Gregorian calendar. The functions follow
  the \<open>datetime\<close> module.
\<close>

type_synonym date = "nat \<times> nat \<times> nat"

definition MAXORDINAL :: nat where "MAXORDINAL = 3652059"

definition is_leap :: "nat \<Rightarrow> bool" where
  "is_leap year \<longleftrightarrow> year mod 4 = 0 \<and> (year mod 100 \<noteq> 0 \<or> year mod 400 = 0)"

definition DAYS_IN_MONTH :: "nat list" where
  "DAYS_IN_MONTH = [0, 31, 28, 31, 30, 31, 30, 31, 31, 30, 31, 30, 31]"

definition DAYS_BEFORE_MONTH :: "nat list" where
  "DAYS_BEFORE_MONTH = [0, 0, 31, 59, 90, 120, 151, 181, 212, 243, 273, 304, 334]"

definition days_before_year :: "nat \<Rightarrow> nat" where
  "days_before_year year = (let y = year - 1 in y * 365 + y div 4 - y div 100 + y div 400)"

definition days_in_month :: "nat \<Rightarrow> nat \<Rightarrow> nat" where
  "days_in_month year month =
     (if month = 2 \<and> is_leap year then 29 else DAYS_IN_MONTH ! month)"

definition days_before_month :: "nat \<Rightarrow> nat \<Rightarrow> nat" where
  "days_before_month year month =
     DAYS_BEFORE_MONTH ! month + (if 2 < month \<and> is_leap year then 1 else 0)"

definition ymd2ord :: "date \<Rightarrow> nat" where
  "ymd2ord dt = (case dt of (year, month, day) \<Rightarrow>
     days_before_year year + days_before_month year month + day)"

definition ord2ymd :: "nat \<Rightarrow> date" where
  "ord2ymd ordinal =
     (let n = ordinal - 1;
          n400 = n div 146097; n = n mod 146097;
          n100 = n div 36524; n = n mod 36524;
          n4 = n div 1461; n = n mod 1461;
          n1 = n div 365; n = n mod 365;
          year = n400 * 400 + 1 + n100 * 100 + n4 * 4 + n1
      in if n1 = 4 \<or> n100 = 4 then (year - 1, 12, 31)
         else
           let leapyear = (n1 = 3 \<and> (n4 \<noteq> 24 \<or> n100 = 3));
               month = (n + 50) div 32;
               preceding = DAYS_BEFORE_MONTH ! month + (if 2 < month \<and> leapyear then 1 else 0)
           in if n < preceding
              then (year, month - 1,
                    n - (preceding - (DAYS_IN_MONTH ! (month - 1)
                                      + (if month - 1 = 2 \<and> leapyear then 1 else 0))) + 1)
              else (year, month, n - preceding + 1))"

definition valid_date :: "date \<Rightarrow> bool" where
  "valid_date dt = (case dt of (year, month, day) \<Rightarrow>
     1 \<le> year \<and> year \<le> 9999 \<and> 1 \<le> month \<and> month \<le> 12 \<and>
     1 \<le> day \<and> day \<le> days_in_month year month)"

text \<open>
  \<open>d + timedelta(days=k)\<close> on the ordinal of \<open>d\<close>: \<open>OverflowError\<close> when the
  \<open>timedelta\<close> or the resulting date is out of range.
\<close>

definition add_days :: "nat \<Rightarrow> int \<Rightarrow> error + nat" where
  "add_days ordinal k =
     (if k < - 999999999 \<or> 999999999 < k then Inl OverflowError
      else if 0 < int ordinal + k \<and> int ordinal + k \<le> int MAXORDINAL
      then Inr (nat (int ordinal + k))
      else Inl OverflowError)"

definition digit_char :: "nat \<Rightarrow> nat" where
  "digit_char k = 48 + k mod 10"

text \<open>
  \<open>strftime('%Y-%m-%d')\<close> with the \<open>%Y\<close> of the C library, which writes a year
  below 1000 without leading zeros.
\<close>

definition year_digits :: "nat \<Rightarrow> ustr" where
  "year_digits year =
     (if year < 10 then [digit_char year]
      else if year < 100 then [digit_char (year div 10), digit_char year]
      else if year < 1000
      then [digit_char (year div 100), digit_char (year div 10), digit_char year]
      else [digit_char (year div 1000), digit_char (year div 100), digit_char (year div 10),
            digit_char year])"

definition strftime_ymd :: "date \<Rightarrow> ustr" where
  "strftime_ymd dt = (case dt of (year, month, day) \<Rightarrow>
     year_digits year
     @ [MINUS, digit_char (month div 10), digit_char month, MINUS,
        digit_char (day div 10), digit_char day])"

text \<open>
  \<open>datetime.strptime(s, '%Y-%m-%d')\<close>. The directives stand for the patterns
  \<open>\d\d\d\d\<close>, \<open>1[0-2]|0[1-9]|[1-9]\<close> and \<open>3[01]|[12]\d|0[1-9]|[1-9]| [1-9]\<close>; text
  behind the match and a date that does not exist are a \<open>ValueError\<close>. Decimal digits
  outside ASCII are not modelled.
\<close>

definition parse_month :: "ustr \<Rightarrow> (nat \<times> ustr) option" where
  "parse_month s =
     (case s of
        [] \<Rightarrow> None
      | a # r \<Rightarrow>
          (case r of
             [] \<Rightarrow> if 49 \<le> a \<and> a \<le> 57 then Some (a - 48, r) else None
           | b # r' \<Rightarrow>
               if a = 49 \<and> 48 \<le> b \<and> b \<le> 50 then Some (10 + (b - 48), r')
               else if a = 48 \<and> 49 \<le> b \<and> b \<le> 57 then Some (b - 48, r')
               else if 49 \<le> a \<and> a \<le> 57 then Some (a - 48, r)
               else None))"

definition parse_day :: "ustr \<Rightarrow> (nat \<times> ustr) option" where
  "parse_day s =
     (case s of
        [] \<Rightarrow> None
      | a # r \<Rightarrow>
          (case r of
             [] \<Rightarrow> if 49 \<le> a \<and> a \<le> 57 then Some (a - 48, r) else None
           | b # r' \<Rightarrow>
               if a = 51 \<and> 48 \<le> b \<and> b \<le> 49 then Some (30 + (b - 48), r')
               else if 49 \<le> a \<and> a \<le> 50 \<and> is_digit b then Some (10 * (a - 48) + (b - 48), r')
               else if a = 48 \<and> 49 \<le> b \<and> b \<le> 57 then Some (b - 48, r')
               else if 49 \<le> a \<and> a \<le> 57 then Some (a - 48, r)
               else if a = 32 \<and> 49 \<le> b \<and> b \<le> 57 then Some (b - 48, r')
               else None))"

definition strptime_ymd :: "ustr \<Rightarrow> error + date" where
  "strptime_ymd s =
     (case s of
        y1 # y2 # y3 # y4 # dash1 # r1 \<Rightarrow>
          if is_digit y1 \<and> is_digit y2 \<and> is_digit y3 \<and> is_digit y4 \<and> dash1 = MINUS then
            (case parse_month r1 of
               None \<Rightarrow> Inl ValueError
             | Some (month, r2) \<Rightarrow>
                 (case r2 of
                    [] \<Rightarrow> Inl ValueError
                  | dash2 # r3 \<Rightarrow>
                      if dash2 = MINUS then
                        (case parse_day r3 of
                           None \<Rightarrow> Inl ValueError
                         | Some (day, r4) \<Rightarrow>
                             (let year = (y1 - 48) * 1000 + (y2 - 48) * 100 + (y3 - 48) * 10
                                         + (y4 - 48)
                              in if r4 = [] \<and> valid_date (year, month, day)
                                 then Inr (year, month, day) else Inl ValueError))
                      else Inl ValueError))
          else Inl ValueError
      | _ \<Rightarrow> Inl ValueError)"

section \<open>The outside world\<close>

text \<open>
  Every HTTP request, every reading of the clock, every random draw and every call of the
  text generator is an effect. The world answers the \<open>n\<close>-th effect of a run through
  the functions below, so that the same request may be answered differently each time.
  A computation takes the number of effects so far and returns its result, or the exception
  it raised, with the new number.

  A response carries its status code and what \<open>response.json()\<close> gives: the body in the
  shape the endpoint documents, or the exception raised when the body is not of that
  shape. A key that the source reads with a subscript is an \<open>option\<close> field (absent:
  \<open>KeyError\<close>); so is a key it reads with \<open>get\<close> (absent: the default).
\<close>

record price_info =
  price_total :: "ustr option"
  price_currency :: "ustr option"

record segment =
  carrierCode :: "ustr option"
  departure_iataCode :: "ustr option"
  arrival_iataCode :: "ustr option"

record flight_offer =
  offer_price :: "price_info option"
  offer_itineraries :: "segment list list"

record flight_body =
  flight_data :: "flight_offer list"
  carriers :: "(ustr \<times> ustr) list"

record hotel_offers_entry =
  hotel_name :: "ustr option"
  hotel_offers :: "price_info list"

record weather_desc =
  description :: "ustr option"
  icon :: "ustr option"

record forecast_item =
  item_dt :: "int option"
  main_temp :: "rat option"
  item_weather :: "weather_desc list"

datatype 'b response = Raises error | Response int "error + 'b"

record world =
  AMADEUS_API_KEY :: "ustr option"
  AMADEUS_API_SECRET :: "ustr option"
  OPENWEATHER_API_KEY :: "ustr option"
  post_token :: "nat \<Rightarrow> ustr \<Rightarrow> ustr \<Rightarrow> (ustr option) response"
  get_locations :: "nat \<Rightarrow> ustr \<Rightarrow> ustr \<Rightarrow> (ustr option list) response"
  get_flight_offers :: "nat \<Rightarrow> ustr \<Rightarrow> ustr \<Rightarrow> ustr \<Rightarrow> ustr \<Rightarrow> ustr \<Rightarrow> flight_body response"
  get_hotels_by_city :: "nat \<Rightarrow> ustr \<Rightarrow> ustr \<Rightarrow> (ustr option list) response"
  get_hotel_offers :: "nat \<Rightarrow> ustr \<Rightarrow> ustr \<Rightarrow> ustr \<Rightarrow> ustr \<Rightarrow> (hotel_offers_entry list) response"
  get_geocode :: "nat \<Rightarrow> ustr \<Rightarrow> ustr \<Rightarrow> ((rat option \<times> rat option) list) response"
  get_forecast :: "nat \<Rightarrow> rat \<Rightarrow> rat \<Rightarrow> ustr \<Rightarrow> (forecast_item list) response"
  timestamp_date :: "int \<Rightarrow> error + ustr"
  str_title :: "ustr \<Rightarrow> ustr"
  today :: "nat \<Rightarrow> nat"
  choice :: "nat \<Rightarrow> nat"
  generate_content :: "nat \<Rightarrow> ustr \<Rightarrow> error + ustr"
  describe :: "error \<Rightarrow> ustr"

text \<open>
  \<open>timestamp_date\<close> is \<open>datetime.fromtimestamp(t).strftime('%Y-%m-%d')\<close> in the local
  time zone, \<open>str_title\<close> is \<open>str.title()\<close>, \<open>today\<close> the ordinal of the
  date that \<open>datetime.now()\<close> reads,
  \<open>choice\<close> the draw behind \<open>random.choice\<close>, \<open>generate_content\<close> the text of the
  generator's response and \<open>describe\<close> the text \<open>str(e)\<close> of an exception.
\<close>

type_synonym 'a io = "nat \<Rightarrow> (error + 'a) \<times> nat"

definition io_return :: "'a \<Rightarrow> 'a io" where
  "io_return x n = (Inr x, n)"

definition io_raise :: "error \<Rightarrow> 'a io" where
  "io_raise e n = (Inl e, n)"

definition io_lift :: "error + 'a \<Rightarrow> 'a io" where
  "io_lift r n = (r, n)"

definition io_bind :: "'a io \<Rightarrow> ('a \<Rightarrow> 'b io) \<Rightarrow> 'b io" where
  "io_bind m f n = (case m n of (Inl e, n') \<Rightarrow> (Inl e, n') | (Inr x, n') \<Rightarrow> f x n')"

text \<open>\<open>try: m except Exception as e: h e\<close>\<close>

definition io_try :: "'a io \<Rightarrow> (error \<Rightarrow> 'a io) \<Rightarrow> 'a io" where
  "io_try m h n = (case m n of (Inl e, n') \<Rightarrow> h e n' | (Inr x, n') \<Rightarrow> (Inr x, n'))"

text \<open>A request: the status code and the decoded body of the response, or the exception.\<close>

definition request :: "(nat \<Rightarrow> 'b response) \<Rightarrow> (int \<times> (error + 'b)) io" where
  "request ask n =
     (case ask n of
        Raises e \<Rightarrow> (Inl e, Suc n)
      | Response status_code body \<Rightarrow> (Inr (status_code, body), Suc n))"

definition now :: "world \<Rightarrow> nat io" where
  "now w n = (Inr (today w n), Suc n)"

text \<open>A loop body that may raise, run over a list: the first exception ends the loop.\<close>

fun collect :: "('a \<Rightarrow> error + 'b) \<Rightarrow> 'a list \<Rightarrow> error + 'b list" where
  "collect f [] = Inr []"
| "collect f (x # xs) =
     (case f x of
        Inl e \<Rightarrow> Inl e
      | Inr y \<Rightarrow> (case collect f xs of Inl e \<Rightarrow> Inl e | Inr ys \<Rightarrow> Inr (y # ys)))"

text \<open>\<open>not x\<close> for a value that is \<open>None\<close> or a string.\<close>

fun falsy :: "ustr option \<Rightarrow> bool" where
  "falsy None = True"
| "falsy (Some s) = (s = [])"

fun or_default :: "'a option \<Rightarrow> 'a \<Rightarrow> 'a" where
  "or_default None d = d"
| "or_default (Some x) d = x"

fun subscript :: "'a option \<Rightarrow> error + 'a" where
  "subscript None = Inl KeyError"
| "subscript (Some x) = Inr x"

section \<open>The Amadeus token and city codes\<close>

definition get_amadeus_token :: "world \<Rightarrow> ustr option io" where
  "get_amadeus_token w =
     io_try
       (if falsy (AMADEUS_API_KEY w) \<or> falsy (AMADEUS_API_SECRET w) then io_return None
        else
          io_bind (request (\<lambda>n. post_token w n (or_default (AMADEUS_API_KEY w) [])
                                   (or_default (AMADEUS_API_SECRET w) []))) (\<lambda>(status_code, body).
            if status_code = 200
            then io_bind (io_lift body) (\<lambda>access_token. io_return access_token)
            else io_return None))
       (\<lambda>e. io_return None)"

definition search_city_code :: "world \<Rightarrow> ustr \<Rightarrow> ustr option io" where
  "search_city_code w city_name =
     io_try
       (io_bind (get_amadeus_token w) (\<lambda>token.
          if falsy token then io_return None
          else
            io_bind (request (\<lambda>n. get_locations w n (or_default token []) city_name))
              (\<lambda>(status_code, body).
                 if status_code = 200
                 then io_bind (io_lift body) (\<lambda>data.
                        case data of
                          [] \<Rightarrow> io_return None
                        | location # _ \<Rightarrow>
                            io_bind (io_lift (subscript location)) (\<lambda>iataCode.
                              io_return (Some iataCode)))
                 else io_return None)))
       (\<lambda>e. io_return None)"

section \<open>Flights\<close>

definition flight_record :: "ustr \<Rightarrow> ustr \<Rightarrow> ustr \<Rightarrow> ustr \<Rightarrow> ustr \<Rightarrow> ustr \<Rightarrow> json" where
  "flight_record airline route price departure return_date note = JObject
     [(str ''airline'', JString airline),
      (str ''route'', JString route),
      (str ''price'', JString price),
      (str ''departure'', JString departure),
      (str ''return'', JString return_date),
      (str ''note'', JString note)]"

text \<open>The route, with U+2192 between the two places.\<close>

definition route_of :: "ustr \<Rightarrow> ustr \<Rightarrow> ustr" where
  "route_of a b = a @ [32, 8594, 32] @ b"

definition get_fallback_flights :: "ustr \<Rightarrow> ustr \<Rightarrow> ustr \<Rightarrow> ustr \<Rightarrow> json list" where
  "get_fallback_flights origin destination departure_date return_date =
     [flight_record (str ''Generic Airlines'') (route_of origin destination)
        (str ''$400-800'') departure_date return_date
        (str ''Prices vary by airline and booking time. (Fallback Data)''),
      flight_record (str ''Budget Carrier'') (route_of origin destination)
        (str ''$300-600'') departure_date return_date
        (str ''Check for additional fees. (Fallback Data)''),
      flight_record (str ''Premium Flights'') (route_of origin destination)
        (str ''$600-1200'') departure_date return_date
        (str ''Includes meals and baggage. (Fallback Data)'')]"

text \<open>The body of the loop over the offers (lines 210 to 247).\<close>

definition flight_of_offer ::
  "(ustr \<times> ustr) list \<Rightarrow> ustr \<Rightarrow> ustr \<Rightarrow> ustr \<Rightarrow> ustr \<Rightarrow> flight_offer \<Rightarrow> error + json" where
  "flight_of_offer carrier_names origin_code dest_code departure_date return_date offer =
     (case offer_price offer of
        None \<Rightarrow> Inl KeyError
      | Some p \<Rightarrow>
          (case price_total p of
             None \<Rightarrow> Inl KeyError
           | Some price \<Rightarrow>
               (case price_currency p of
                  None \<Rightarrow> Inl KeyError
                | Some currency \<Rightarrow>
                    (case offer_itineraries offer of
                       [] \<Rightarrow>
                         Inr (flight_record (str ''Multiple Airlines'')
                           (route_of origin_code dest_code) (currency @ [32] @ price)
                           departure_date return_date
                           (str ''Itinerary details not fully available''))
                     | segments # _ \<Rightarrow>
                         (case segments of
                            [] \<Rightarrow>
                              Inr (flight_record (str ''Multiple Airlines'')
                                (route_of origin_code dest_code) (currency @ [32] @ price)
                                departure_date return_date
                                (str ''Itinerary details not fully available''))
                          | first_segment # _ \<Rightarrow>
                              (let airline_code = or_default (carrierCode first_segment) (str ''N/A'');
                                   airline_name = or_default (map_of carrier_names airline_code)
                                     (str ''Multiple Airlines'');
                                   departure_airport =
                                     or_default (departure_iataCode first_segment) origin_code;
                                   arrival_airport =
                                     or_default (arrival_iataCode (last segments)) dest_code
                               in Inr (flight_record airline_name
                                    (route_of departure_airport arrival_airport)
                                    (currency @ [32] @ price) departure_date return_date
                                    (if length segments = 1 then str ''Direct flight''
                                     else str ''Connecting flight''))))))))"

definition search_flights :: "world \<Rightarrow> ustr \<Rightarrow> ustr \<Rightarrow> ustr \<Rightarrow> ustr \<Rightarrow> json list io" where
  "search_flights w origin destination departure_date return_date =
     io_try
       (io_bind (get_amadeus_token w) (\<lambda>token.
          if falsy token
          then io_return (get_fallback_flights origin destination departure_date return_date)
          else
            io_bind (search_city_code w origin) (\<lambda>origin_code.
            io_bind (search_city_code w destination) (\<lambda>dest_code.
              if falsy origin_code \<or> falsy dest_code
              then io_return (get_fallback_flights origin destination departure_date return_date)
              else
                io_bind (request (\<lambda>n. get_flight_offers w n (or_default token [])
                           (or_default origin_code []) (or_default dest_code [])
                           departure_date return_date)) (\<lambda>(status_code, body).
                  if status_code = 200 then
                    io_bind (io_lift body) (\<lambda>data.
                    io_bind (io_lift (collect
                        (flight_of_offer (carriers data) (or_default origin_code [])
                           (or_default dest_code []) departure_date return_date)
                        (take 3 (flight_data data)))) (\<lambda>flights.
                      io_return (if flights \<noteq> [] then flights
                         else get_fallback_flights origin destination departure_date return_date)))
                  else io_return
                    (get_fallback_flights origin destination departure_date return_date))))))
       (\<lambda>e. io_return (get_fallback_flights origin destination departure_date return_date))"

section \<open>Hotels\<close>

definition hotel_record :: "ustr \<Rightarrow> ustr \<Rightarrow> ustr \<Rightarrow> ustr \<Rightarrow> ustr \<Rightarrow> json" where
  "hotel_record name rating price location amenities = JObject
     [(str ''name'', JString name),
      (str ''rating'', JString rating),
      (str ''price'', JString price),
      (str ''location'', JString location),
      (str ''amenities'', JString amenities)]"

definition get_fallback_hotels :: "ustr \<Rightarrow> json list" where
  "get_fallback_hotels city_name =
     [hotel_record (str ''Budget Stay in '' @ city_name) (str ''4.2/5'')
        (str ''$80-150/night'') (str ''City Center'')
        (str ''WiFi, Breakfast. (Fallback Data)''),
      hotel_record (str ''Mid-Range Comfort in '' @ city_name) (str ''4.5/5'')
        (str ''$150-250/night'') (str ''Near Attractions'')
        (str ''WiFi, Pool, Restaurant. (Fallback Data)''),
      hotel_record (str ''Luxury Retreat in '' @ city_name) (str ''4.8/5'')
        (str ''$250-500/night'') (str ''Prime Location'')
        (str ''WiFi, Spa, Fine Dining. (Fallback Data)'')]"

text \<open>
  The body of the loop over the hotel ids (lines 320 to 344): one request, and at most one
  record from the first offer of the first entry of its data.
\<close>

definition hotel_of_id :: "world \<Rightarrow> ustr \<Rightarrow> ustr \<Rightarrow> ustr \<Rightarrow> ustr \<Rightarrow> ustr \<Rightarrow> json list io" where
  "hotel_of_id w token city_name check_in check_out hotel_id =
     io_bind (request (\<lambda>n. get_hotel_offers w n token hotel_id check_in check_out))
       (\<lambda>(status_code, body).
          if status_code = 200 then
            io_bind (io_lift body) (\<lambda>data.
              case data of
                [] \<Rightarrow> io_return []
              | entry # _ \<Rightarrow>
                  io_return (map (\<lambda>offer.
                      hotel_record (or_default (hotel_name entry) (str ''Hotel Name Unknown''))
                        (str ''N/A'')
                        (or_default (price_currency offer) [] @ [32]
                           @ or_default (price_total offer) (str ''N/A'') @ str ''/night'')
                        city_name (str ''WiFi, Breakfast''))
                    (take 1 (hotel_offers entry))))
          else io_return [])"

fun hotels_loop :: "(ustr \<Rightarrow> json list io) \<Rightarrow> ustr list \<Rightarrow> json list \<Rightarrow> json list io" where
  "hotels_loop body [] hotels = io_return hotels"
| "hotels_loop body (hotel_id # hotel_ids) hotels =
     io_bind (body hotel_id) (\<lambda>found. hotels_loop body hotel_ids (hotels @ found))"

definition search_hotels :: "world \<Rightarrow> ustr \<Rightarrow> ustr \<Rightarrow> ustr \<Rightarrow> json list io" where
  "search_hotels w city_name check_in check_out =
     io_try
       (io_bind (get_amadeus_token w) (\<lambda>token.
          if falsy token then io_return (get_fallback_hotels city_name)
          else
            io_bind (search_city_code w city_name) (\<lambda>city_code.
              if falsy city_code then io_return (get_fallback_hotels city_name)
              else
                io_bind (request (\<lambda>n. get_hotels_by_city w n (or_default token [])
                           (or_default city_code []))) (\<lambda>(status_code, body).
                io_bind (if status_code = 200
                         then io_bind (io_lift body) (\<lambda>data.
                                io_lift (collect subscript (take 5 data)))
                         else io_return []) (\<lambda>hotel_ids.
                io_bind (hotels_loop
                           (hotel_of_id w (or_default token []) city_name check_in check_out)
                           hotel_ids []) (\<lambda>hotels.
                  io_return (if hotels \<noteq> [] then hotels
                             else get_fallback_hotels city_name)))))))
       (\<lambda>e. io_return (get_fallback_hotels city_name))"

section \<open>Weather\<close>

definition weather_record :: "ustr \<Rightarrow> int \<Rightarrow> ustr \<Rightarrow> ustr \<Rightarrow> json" where
  "weather_record date_str temperature desc icn = JObject
     [(str ''date'', JString date_str),
      (str ''temperature'', JInt temperature),
      (str ''description'', JString desc),
      (str ''icon'', JString icn)]"

text \<open>\<open>(base_date + timedelta(days=i)).strftime('%Y-%m-%d')\<close>\<close>

definition date_plus :: "nat \<Rightarrow> int \<Rightarrow> error + ustr" where
  "date_plus ordinal k =
     (case add_days ordinal k of
        Inl e \<Rightarrow> Inl e
      | Inr ordinal' \<Rightarrow> Inr (strftime_ymd (ord2ymd ordinal')))"

definition fallback_day :: "nat \<Rightarrow> nat \<Rightarrow> error + json" where
  "fallback_day base_date i =
     (case date_plus base_date (int i) of
        Inl e \<Rightarrow> Inl e
      | Inr date_str \<Rightarrow>
          Inr (weather_record date_str (20 + int (i mod 5))
                 (str ''Partly Cloudy (Fallback)'') (str ''02d'')))"

definition get_fallback_weather :: "world \<Rightarrow> ustr \<Rightarrow> json list io" where
  "get_fallback_weather w city_name =
     io_bind (now w) (\<lambda>base_date. io_lift (collect (fallback_day base_date) [0 ..< 5]))"

text \<open>
  The loop over the forecast items (lines 421 to 436), with the list built so far and the
  dates seen so far. The date of every item is read; the other fields only of an item that
  is added.
\<close>

fun forecast_loop ::
  "world \<Rightarrow> forecast_item list \<Rightarrow> json list \<Rightarrow> ustr set \<Rightarrow> error + json list" where
  "forecast_loop w [] forecast seen_dates = Inr forecast"
| "forecast_loop w (item # items) forecast seen_dates =
     (case subscript (item_dt item) of
        Inl e \<Rightarrow> Inl e
      | Inr t \<Rightarrow>
          (case timestamp_date w t of
             Inl e \<Rightarrow> Inl e
           | Inr date_str \<Rightarrow>
               if date_str \<notin> seen_dates \<and> length forecast < 5 then
                 (case subscript (main_temp item) of
                    Inl e \<Rightarrow> Inl e
                  | Inr tmp \<Rightarrow>
                      (case item_weather item of
                         [] \<Rightarrow> Inl IndexError
                       | wd # _ \<Rightarrow>
                           (case subscript (description wd) of
                              Inl e \<Rightarrow> Inl e
                            | Inr desc \<Rightarrow>
                                (case subscript (icon wd) of
                                   Inl e \<Rightarrow> Inl e
                                 | Inr icn \<Rightarrow>
                                     forecast_loop w items
                                       (forecast @ [weather_record date_str (py_round tmp)
                                                      (str_title w desc) icn])
                                       (insert date_str seen_dates)))))
               else forecast_loop w items forecast seen_dates))"

definition get_weather_forecast :: "world \<Rightarrow> ustr \<Rightarrow> ustr \<Rightarrow> ustr \<Rightarrow> json list io" where
  "get_weather_forecast w city_name start_date end_date =
     io_try
       (if falsy (OPENWEATHER_API_KEY w) then get_fallback_weather w city_name
        else
          io_bind (request (\<lambda>n. get_geocode w n city_name
                     (or_default (OPENWEATHER_API_KEY w) []))) (\<lambda>(geocode_status, geocode_body).
            if geocode_status \<noteq> 200 then get_fallback_weather w city_name
            else
              io_bind (io_lift geocode_body) (\<lambda>geocode_data.
                case geocode_data of
                  [] \<Rightarrow> get_fallback_weather w city_name
                | place # _ \<Rightarrow>
                    io_bind (io_lift (subscript (fst place))) (\<lambda>lat.
                    io_bind (io_lift (subscript (snd place))) (\<lambda>lon.
                    io_bind (request (\<lambda>n. get_forecast w n lat lon
                               (or_default (OPENWEATHER_API_KEY w) [])))
                      (\<lambda>(weather_status, weather_body).
                         if weather_status \<noteq> 200 then get_fallback_weather w city_name
                         else
                           io_bind (io_lift weather_body) (\<lambda>items.
                           io_bind (io_lift (forecast_loop w items [] {})) (\<lambda>forecast.
                             if forecast \<noteq> [] then io_return forecast
                             else get_fallback_weather w city_name))))))))
       (\<lambda>e. get_fallback_weather w city_name)"

section \<open>The orchestrator\<close>

text \<open>The two prompts (lines 471 and 564), with the inputs spliced in.\<close>

definition itinerary_prompt ::
  "ustr \<Rightarrow> ustr \<Rightarrow> ustr \<Rightarrow> ustr \<Rightarrow> ustr \<Rightarrow> ustr \<Rightarrow> ustr \<Rightarrow> ustr \<Rightarrow> ustr" where
  \<open>itinerary_prompt user_mood user_budget user_duration user_travel_style user_origin
     user_travel_means user_hotel_preference user_departure_date =
     str ''\<newline>''
     @ str ''        You are an expert travel planner. Create a personalized travel itinerary based on these preferences:\<newline>''
     @ str ''        \<newline>''
     @ str ''        Travel Mood: ''
     @ user_mood
     @ str ''\<newline>''
     @ str ''        Budget: $''
     @ user_budget
     @ str ''\<newline>''
     @ str ''        Duration: ''
     @ user_duration
     @ str '' days\<newline>''
     @ str ''        Travel Style: ''
     @ user_travel_style
     @ str ''\<newline>''
     @ str ''        Origin: ''
     @ user_origin
     @ str ''\<newline>''
     @ str ''        Travel Means: ''
     @ user_travel_means
     @ str ''\<newline>''
     @ str ''        Hotel Preference: ''
     @ user_hotel_preference
     @ str ''\<newline>''
     @ str ''        Departure Date: ''
     @ user_departure_date
     @ str ''\<newline>''
     @ str ''        \<newline>''
     @ str ''        Create a detailed travel plan in JSON format with the following structure:\<newline>''
     @ str ''        {\<newline>''
     @ str ''            "destination": "Specific city and country name",\<newline>''
     @ str ''            "itinerary": "Detailed day-by-day itinerary with specific activities, times, and locations. Format as a numbered list with clear day separations. Each day should be a separate line item.",\<newline>''
     @ str ''            "cuisine": "Specific local dishes and restaurants to try with names and specialties. Format as a numbered list with restaurant names and dish descriptions. Each cuisine item should be a separate line item.",\<newline>''
     @ str ''            "fun_fact": "Interesting and specific fact about the destination that most people don't know",\<newline>''
     @ str ''            "estimated_cost": {\<newline>''
     @ str ''                "Accommodation": "Detailed cost breakdown with specific price ranges",\<newline>''
     @ str ''                "Food": "Cost for meals and dining with specific amounts",\<newline>''
     @ str ''                "Activities": "Cost for attractions and experiences with specific prices",\<newline>''
     @ str ''                "Transportation": "Local transport costs with specific amounts",\<newline>''
     @ str ''                "Total": "Total estimated cost with clear breakdown"\<newline>''
     @ str ''            },\<newline>''
     @ str ''            "best_time_to_visit": "Specific months and reasons why, tailored to the destination",\<newline>''
     @ str ''            "packing_tips": "Specific items to pack based on the destination and season, formatted as a numbered list. Each packing tip should be a separate line item."\<newline>''
     @ str ''        }\<newline>''
     @ str ''        \<newline>''
     @ str ''        Make the response detailed, specific, and practical. Include actual place names, restaurant names, and specific activities. Ensure all lists are properly formatted with clear numbering, and do NOT include any trailing commas in the JSON.\<newline>''
     @ str ''        ''\<close>

definition surprise_prompt :: "ustr \<Rightarrow> ustr" where
  \<open>surprise_prompt random_destination =
     str ''\<newline>''
     @ str ''        You are an expert travel planner. Create a surprise travel itinerary for: ''
     @ random_destination
     @ str ''\<newline>''
     @ str ''        \<newline>''
     @ str ''        This is a surprise destination, so make it exciting and unexpected! Create a detailed travel plan in JSON format with the following structure:\<newline>''
     @ str ''        {\<newline>''
     @ str ''            "destination": "''
     @ random_destination
     @ str ''",\<newline>''
     @ str ''            "itinerary": "Detailed day-by-day itinerary with specific activities, times, and locations for 5 days. Format as a numbered list with clear day separations. Each day should be a separate line item.",\<newline>''
     @ str ''            "cuisine": "Specific local dishes and restaurants to try with names and specialties. Format as a numbered list with restaurant names and dish descriptions. Each cuisine item should be a separate line item.",\<newline>''
     @ str ''            "fun_fact": "Interesting and specific fact about the destination that most people don't know",\<newline>''
     @ str ''            "estimated_cost": {\<newline>''
     @ str ''                "Accommodation": "Detailed cost breakdown with specific price ranges",\<newline>''
     @ str ''                "Food": "Cost for meals and dining with specific amounts",\<newline>''
     @ str ''                "Activities": "Cost for attractions and experiences with specific prices",\<newline>''
     @ str ''                "Transportation": "Local transport costs with specific amounts",\<newline>''
     @ str ''                "Total": "Total estimated cost with clear breakdown"\<newline>''
     @ str ''            },\<newline>''
     @ str ''            "best_time_to_visit": "Specific months and reasons why, tailored to the destination",\<newline>''
     @ str ''            "packing_tips": "Specific items to pack based on the destination and season, formatted as a numbered list. Each packing tip should be a separate line item."\<newline>''
     @ str ''        }\<newline>''
     @ str ''        \<newline>''
     @ str ''        Make the response detailed, specific, and practical. Include actual place names, restaurant names, and specific activities. Ensure all lists are properly formatted with clear numbering, and do NOT include any trailing commas in the JSON.\<newline>''
     @ str ''        ''\<close>

text \<open>\<open>request.form[key]\<close>: the first value of the key, or an exception.\<close>

definition form_get :: "(ustr \<times> ustr) list \<Rightarrow> ustr \<Rightarrow> error + ustr" where
  "form_get form k = (case map_of form k of None \<Rightarrow> Inl KeyError | Some v \<Rightarrow> Inr v)"

definition generate :: "world \<Rightarrow> ustr \<Rightarrow> ustr io" where
  "generate w prompt n = (generate_content w n prompt, Suc n)"

text \<open>A string method called on a value: only a \<open>str\<close> has it.\<close>

fun as_str :: "json \<Rightarrow> error + ustr" where
  "as_str (JString s) = Inr s"
| "as_str _ = Inl AttributeError"

text \<open>Lines 512 and 513: the return date of the directed flow.\<close>

definition compute_return_date :: "ustr \<Rightarrow> ustr \<Rightarrow> error + ustr" where
  "compute_return_date user_departure_date user_duration =
     (case strptime_ymd user_departure_date of
        Inl e \<Rightarrow> Inl e
      | Inr departure_date \<Rightarrow>
          (case py_int user_duration of
             Inl e \<Rightarrow> Inl e
           | Inr days \<Rightarrow> date_plus (ymd2ord departure_date) days))"

text \<open>The keys of \<open>response_data\<close>, in the order of lines 523 to 535.\<close>

definition response_data ::
  "json \<Rightarrow> ustr \<Rightarrow> json \<Rightarrow> json list \<Rightarrow> json list \<Rightarrow> json list \<Rightarrow> error + json" where
  "response_data destination description_text itinerary_data flights_data hotels_data
     weather_data =
     (case dict_get itinerary_data (str ''itinerary'') (JString (str ''Itinerary not available'')) of
        Inl e \<Rightarrow> Inl e
      | Inr itinerary \<Rightarrow>
     (case dict_get itinerary_data (str ''cuisine'')
             (JString (str ''Local cuisine information not available'')) of
        Inl e \<Rightarrow> Inl e
      | Inr cuisine \<Rightarrow>
     (case dict_get itinerary_data (str ''estimated_cost'') (JObject []) of
        Inl e \<Rightarrow> Inl e
      | Inr estimated_cost \<Rightarrow>
     (case dict_get itinerary_data (str ''best_time_to_visit'')
             (JString (str ''Year-round destination'')) of
        Inl e \<Rightarrow> Inl e
      | Inr best_time_to_visit \<Rightarrow>
     (case dict_get itinerary_data (str ''packing_tips'')
             (JString (str ''Pack according to season'')) of
        Inl e \<Rightarrow> Inl e
      | Inr packing_tips \<Rightarrow>
          Inr (JObject
            [(str ''success'', JBool True),
             (str ''destination'', destination),
             (str ''description'', JString description_text),
             (str ''itinerary'', itinerary),
             (str ''cuisine'', cuisine),
             (str ''estimated_cost'', estimated_cost),
             (str ''best_time_to_visit'', best_time_to_visit),
             (str ''packing_tips'', packing_tips),
             (str ''flight_options'', JArray flights_data),
             (str ''hotel_options'', JArray hotels_data),
             (str ''weather_forecast'', JArray weather_data)]))))))"

text \<open>
  A route returns the body of the HTTP response and its status code: \<open>jsonify(...)\<close> is
  status 200, \<open>jsonify(...), 500\<close> is status 500.
\<close>

definition error_response :: "ustr \<Rightarrow> json \<times> int" where
  "error_response message =
     (JObject [(str ''success'', JBool False), (str ''error'', JString message)], 500)"

text \<open>The body of the \<open>try\<close> statement of \<open>generate_itinerary\<close> (lines 460 to 537).\<close>

definition itinerary_flow :: "world \<Rightarrow> (ustr \<times> ustr) list \<Rightarrow> (json \<times> int) io" where
  "itinerary_flow w form =
       (io_bind (io_lift (form_get form (str ''mood''))) (\<lambda>user_mood.
        io_bind (io_lift (form_get form (str ''budget''))) (\<lambda>user_budget.
        io_bind (io_lift (form_get form (str ''duration''))) (\<lambda>user_duration.
        io_bind (io_lift (form_get form (str ''travel_style''))) (\<lambda>user_travel_style.
        io_bind (io_lift (form_get form (str ''origin_city''))) (\<lambda>user_origin.
        io_bind (io_lift (form_get form (str ''travel_means''))) (\<lambda>user_travel_means.
        io_bind (io_lift (form_get form (str ''hotel_preference''))) (\<lambda>user_hotel_preference.
        io_bind (io_lift (form_get form (str ''departure_date''))) (\<lambda>user_departure_date.
        io_bind (generate w (itinerary_prompt user_mood user_budget user_duration
                   user_travel_style user_origin user_travel_means user_hotel_preference
                   user_departure_date)) (\<lambda>response_text.
        io_bind (io_lift (clean_and_parse_response response_text)) (\<lambda>itinerary_data.
        io_bind (io_lift (dict_get itinerary_data (str ''destination'')
                   (JString (str ''Unknown Destination'')))) (\<lambda>destination.
        io_bind (io_lift (as_str destination)) (\<lambda>destination_str.
        io_bind (io_return (strip (split_comma_first destination_str))) (\<lambda>city_name.
        io_bind (io_lift (compute_return_date user_departure_date user_duration)) (\<lambda>return_date.
        io_bind (search_flights w user_origin city_name user_departure_date return_date)
          (\<lambda>flights_data.
        io_bind (search_hotels w city_name user_departure_date return_date) (\<lambda>hotels_data.
        io_bind (get_weather_forecast w city_name user_departure_date return_date)
          (\<lambda>weather_data.
        io_bind (io_lift (response_data destination
                   (str ''Your perfect '' @ user_mood @ str '' getaway awaits!'')
                   itinerary_data flights_data hotels_data weather_data)) (\<lambda>body.
          io_return (body, 200))))))))))))))))))))"

definition generate_itinerary :: "world \<Rightarrow> (ustr \<times> ustr) list \<Rightarrow> (json \<times> int) io" where
  "generate_itinerary w form =
     io_try (itinerary_flow w form)
       (\<lambda>e. io_return (error_response (str ''Error generating itinerary: '' @ describe w e)))"

definition surprise_destinations :: "ustr list" where
  "surprise_destinations =
     [str ''Kyoto, Japan'', str ''Santorini, Greece'', str ''Reykjavik, Iceland'',
      str ''Marrakech, Morocco'', str ''Bali, Indonesia'', str ''Cape Town, South Africa'',
      str ''Prague, Czech Republic'', str ''Queenstown, New Zealand'',
      str ''Dubrovnik, Croatia'', str ''Banff, Canada'']"

text \<open>\<open>random.choice(xs)\<close> for a non-empty list: the element at the drawn index.\<close>

definition random_choice :: "world \<Rightarrow> 'a list \<Rightarrow> 'a io" where
  "random_choice w xs n = (Inr (xs ! (choice w n mod length xs)), Suc n)"

text \<open>The body of the \<open>try\<close> statement of \<open>surprise_destination\<close> (lines 546 to 621).\<close>

definition surprise_flow :: "world \<Rightarrow> (json \<times> int) io" where
  "surprise_flow w =
       (io_bind (random_choice w surprise_destinations) (\<lambda>random_destination.
        io_bind (generate w (surprise_prompt random_destination)) (\<lambda>response_text.
        io_bind (io_lift (clean_and_parse_response response_text)) (\<lambda>itinerary_data.
        io_bind (io_lift (dict_get itinerary_data (str ''destination'')
                   (JString random_destination))) (\<lambda>destination.
        io_bind (io_lift (as_str destination)) (\<lambda>destination_str.
        io_bind (io_return (strip (split_comma_first destination_str))) (\<lambda>city_name.
        io_bind (now w) (\<lambda>now1.
        io_bind (io_lift (date_plus now1 1)) (\<lambda>tomorrow.
        io_bind (now w) (\<lambda>now2.
        io_bind (io_lift (date_plus now2 6)) (\<lambda>return_date.
        io_bind (search_flights w (str ''New York'') city_name tomorrow return_date)
          (\<lambda>flights_data.
        io_bind (search_hotels w city_name tomorrow return_date) (\<lambda>hotels_data.
        io_bind (get_weather_forecast w city_name tomorrow return_date) (\<lambda>weather_data.
        io_bind (io_lift (response_data destination
                   (str ''Surprise! Your next adventure awaits in '' @ destination_str @ str ''!'')
                   itinerary_data flights_data hotels_data weather_data)) (\<lambda>body.
          io_return (body, 200))))))))))))))))"

definition surprise_destination :: "world \<Rightarrow> (json \<times> int) io" where
  "surprise_destination w =
     io_try (surprise_flow w)
       (\<lambda>e. io_return (error_response
          (str ''An internal error occurred while generating the surprise destination.'')))"

definition RESPONSE_KEYS :: "ustr list" where
  "RESPONSE_KEYS =
     [str ''success'', str ''destination'', str ''description'', str ''itinerary'',
      str ''cuisine'', str ''estimated_cost'', str ''best_time_to_visit'',
      str ''packing_tips'', str ''flight_options'', str ''hotel_options'',
      str ''weather_forecast'']"

section \<open>Notions used to state the properties\<close>

text \<open>
  A record carries a fallback marker when the given field is a string that ends with the
  marker.
\<close>

definition has_marker :: "ustr \<Rightarrow> ustr \<Rightarrow> json \<Rightarrow> bool" where
  "has_marker field marker item =
     (case item of
        JObject kvs \<Rightarrow>
          (case map_of kvs field of Some (JString s) \<Rightarrow> suffix marker s | _ \<Rightarrow> False)
      | _ \<Rightarrow> False)"

text \<open>
  The clock is in range when every date it reads is a date of the calendar with at least
  six days to go before 9999-12-31, so that the dates computed from it exist.
\<close>

definition clock_in_range :: "world \<Rightarrow> bool" where
  "clock_in_range w \<longleftrightarrow> (\<forall>k. 1 \<le> today w k \<and> today w k + 6 \<le> MAXORDINAL)"

text \<open>
  The live path of each pipeline: every stage of the chain gave usable data. The run starts
  at effect \<open>n\<close> and ends with the live list \<open>result\<close> at effect \<open>n'\<close>.
\<close>

definition flights_live ::
  "world \<Rightarrow> ustr \<Rightarrow> ustr \<Rightarrow> ustr \<Rightarrow> ustr \<Rightarrow> nat \<Rightarrow> bool" where
  "flights_live w origin destination departure_date return_date n \<longleftrightarrow>
     (\<exists>token origin_code dest_code data flights n1 n2 n3.
        get_amadeus_token w n = (Inr (Some token), n1) \<and> token \<noteq> [] \<and>
        search_city_code w origin n1 = (Inr (Some origin_code), n2) \<and> origin_code \<noteq> [] \<and>
        search_city_code w destination n2 = (Inr (Some dest_code), n3) \<and> dest_code \<noteq> [] \<and>
        get_flight_offers w n3 token origin_code dest_code departure_date return_date
          = Response 200 (Inr data) \<and>
        collect (flight_of_offer (carriers data) origin_code dest_code departure_date return_date)
          (take 3 (flight_data data)) = Inr flights \<and>
        flights \<noteq> [] \<and>
        search_flights w origin destination departure_date return_date n
          = (Inr flights, Suc n3))"

definition hotels_live :: "world \<Rightarrow> ustr \<Rightarrow> ustr \<Rightarrow> ustr \<Rightarrow> nat \<Rightarrow> bool" where
  "hotels_live w city_name check_in check_out n \<longleftrightarrow>
     (\<exists>token city_code data hotel_ids hotels n1 n2 n3.
        get_amadeus_token w n = (Inr (Some token), n1) \<and> token \<noteq> [] \<and>
        search_city_code w city_name n1 = (Inr (Some city_code), n2) \<and> city_code \<noteq> [] \<and>
        get_hotels_by_city w n2 token city_code = Response 200 (Inr data) \<and>
        collect subscript (take 5 data) = Inr hotel_ids \<and>
        hotels_loop (hotel_of_id w token city_name check_in check_out) hotel_ids [] (Suc n2)
          = (Inr hotels, n3) \<and>
        hotels \<noteq> [] \<and>
        search_hotels w city_name check_in check_out n = (Inr hotels, n3))"

definition weather_live :: "world \<Rightarrow> ustr \<Rightarrow> ustr \<Rightarrow> ustr \<Rightarrow> nat \<Rightarrow> bool" where
  "weather_live w city_name start_date end_date n \<longleftrightarrow>
     (\<exists>key places lat lon items forecast.
        OPENWEATHER_API_KEY w = Some key \<and> key \<noteq> [] \<and>
        get_geocode w n city_name key = Response 200 (Inr ((Some lat, Some lon) # places)) \<and>
        get_forecast w (Suc n) lat lon key = Response 200 (Inr items) \<and>
        forecast_loop w items [] {} = Inr forecast \<and> forecast \<noteq> [] \<and>
        get_weather_forecast w city_name start_date end_date n
          = (Inr forecast, Suc (Suc n)))"

text \<open>
  The fallback forecast in the words of the specification: five consecutive days from
  today, the temperature 20 plus the index of the day modulo 5, a fixed description and icon.
\<close>

definition fallback_forecast :: "nat \<Rightarrow> json list" where
  "fallback_forecast base_date =
     map (\<lambda>i. weather_record (strftime_ymd (ord2ymd (base_date + i))) (20 + int (i mod 5))
                 (str ''Partly Cloudy (Fallback)'') (str ''02d''))
       [0, 1, 2, 3, 4]"

text \<open>
  The deduplication of the forecast in the words of the specification: of the items with
  the same key only the first is kept. The key of a forecast item is its calendar date; the
  record of an item has its date, its rounded temperature, its description in title case
  and its icon.
\<close>

function first_per_key :: "('a \<Rightarrow> 'k) \<Rightarrow> 'a list \<Rightarrow> 'a list" where
  "first_per_key key [] = []"
| "first_per_key key (x # xs) = x # first_per_key key (filter (\<lambda>y. key y \<noteq> key x) xs)"
  by pat_completeness auto
termination
  by (relation "measure (\<lambda>(key, xs). length xs)") (auto simp: less_Suc_eq_le)

definition item_date :: "world \<Rightarrow> forecast_item \<Rightarrow> ustr option" where
  "item_date w item =
     (case item_dt item of
        None \<Rightarrow> None
      | Some t \<Rightarrow> (case timestamp_date w t of Inl e \<Rightarrow> None | Inr date_str \<Rightarrow> Some date_str))"

definition item_record :: "world \<Rightarrow> forecast_item \<Rightarrow> error + json" where
  "item_record w item =
     (case (item_date w item, main_temp item, item_weather item) of
        (Some date_str, Some tmp, wd # _) \<Rightarrow>
          (case (description wd, icon wd) of
             (Some desc, Some icn) \<Rightarrow>
               Inr (weather_record date_str (py_round tmp) (str_title w desc) icn)
           | _ \<Rightarrow> Inl KeyError)
      | _ \<Rightarrow> Inl KeyError)"

text \<open>The date of a record of the forecast.\<close>

definition record_date :: "json \<Rightarrow> json option" where
  "record_date item = (case item of JObject kvs \<Rightarrow> map_of kvs (str ''date'') | _ \<Rightarrow> None)"

text \<open>A world without credentials in which every request fails, for concrete runs.\<close>

definition offline_world :: world where
  "offline_world =
     \<lparr>AMADEUS_API_KEY = None, AMADEUS_API_SECRET = None, OPENWEATHER_API_KEY = None,
      post_token = (\<lambda>n client_id client_secret. Raises RequestException),
      get_locations = (\<lambda>n token keyword. Raises RequestException),
      get_flight_offers = (\<lambda>n token origin_code dest_code d r. Raises RequestException),
      get_hotels_by_city = (\<lambda>n token city_code. Raises RequestException),
      get_hotel_offers = (\<lambda>n token hotel_id check_in check_out. Raises RequestException),
      get_geocode = (\<lambda>n q appid. Raises RequestException),
      get_forecast = (\<lambda>n lat lon appid. Raises RequestException),
      timestamp_date = (\<lambda>t. Inl OverflowError),
      str_title = title,
      today = (\<lambda>n. 738886),
      choice = (\<lambda>n. 0),
      generate_content = (\<lambda>n prompt. Inr (str ''I cannot help with that.'')),
      describe = (\<lambda>e. str ''error'')\<rparr>"

text \<open>A world whose weather provider answers, for concrete runs of the live path.\<close>

definition weather_items :: "forecast_item list" where
  "weather_items =
     [\<lparr>item_dt = Some 10, main_temp = Some (41 / 2),
       item_weather = [\<lparr>description = Some (str ''light rain''), icon = Some (str ''10d'')\<rparr>]\<rparr>,
      \<lparr>item_dt = Some 20, main_temp = Some 3,
       item_weather = [\<lparr>description = Some (str ''clear sky''), icon = Some (str ''01d'')\<rparr>]\<rparr>,
      \<lparr>item_dt = Some 100, main_temp = Some (5 / 2),
       item_weather = [\<lparr>description = Some (str ''snow''), icon = Some (str ''13d'')\<rparr>]\<rparr>]"

definition weather_world :: world where
  "weather_world = offline_world
     \<lparr>OPENWEATHER_API_KEY := Some (str ''key''),
      get_geocode := (\<lambda>n q appid. Response 200 (Inr [(Some 1, Some 2)])),
      get_forecast := (\<lambda>n lat lon appid. Response 200 (Inr weather_items)),
      timestamp_date := (\<lambda>t. Inr (if t < 50 then str ''2024-01-01'' else str ''2024-01-02''))\<rparr>"

text \<open>
  A request of the directed flow, and the responses of the two flows in the offline world:
  the generator's text has no JSON in it, so the draft is the canned itinerary, and every
  pipeline falls back. 2024-01-01 is day 738886.
\<close>

definition form_example :: "(ustr \<times> ustr) list" where
  "form_example =
     [(str ''mood'', str ''relaxed''), (str ''budget'', str ''1000''),
      (str ''duration'', str ''7''), (str ''travel_style'', str ''solo''),
      (str ''origin_city'', str ''New York''), (str ''travel_means'', str ''flight''),
      (str ''hotel_preference'', str ''budget''), (str ''departure_date'', str ''2024-01-01'')]"

definition offline_response :: "ustr \<Rightarrow> ustr \<Rightarrow> ustr \<Rightarrow> json" where
  "offline_response description_text departure_date return_date = JObject
     [(str ''success'', JBool True),
      (str ''destination'', JString (str ''Paris, France'')),
      (str ''description'', JString description_text),
      (str ''itinerary'', JString (str
         ''1. Arrive and explore the city center.\<newline>2. Visit famous landmarks.\<newline>3. Enjoy local cuisine and culture.'')),
      (str ''cuisine'', JString (str ''1. Try local specialties and traditional dishes.'')),
      (str ''estimated_cost'', JObject
         [(str ''Accommodation'', JString (str ''$100-200/night'')),
          (str ''Food'', JString (str ''$50-100/day'')),
          (str ''Activities'', JString (str ''$30-80/day'')),
          (str ''Transportation'', JString (str ''$20-50/day'')),
          (str ''Total'', JString (str ''$500-1000 for 5 days''))]),
      (str ''best_time_to_visit'', JString (str ''Spring and fall offer the best weather'')),
      (str ''packing_tips'', JString (str
         ''1. Comfortable walking shoes.\<newline>2. Weather-appropriate clothing.\<newline>3. Essential travel items.'')),
      (str ''flight_options'', JArray
         (get_fallback_flights (str ''New York'') (str ''Paris'') departure_date return_date)),
      (str ''hotel_options'', JArray (get_fallback_hotels (str ''Paris''))),
      (str ''weather_forecast'', JArray (fallback_forecast 738886))]"

definition offline_itinerary_body :: json where
  "offline_itinerary_body =
     offline_response (str ''Your perfect relaxed getaway awaits!'')
       (str ''2024-01-01'') (str ''2024-01-08'')"

definition offline_surprise_body :: json where
  "offline_surprise_body =
     offline_response (str ''Surprise! Your next adventure awaits in Paris, France!'')
       (str ''2024-01-02'') (str ''2024-01-07'')"

text \<open>The offline world with a text generator that raises.\<close>

definition silent_world :: world where
  "silent_world = offline_world \<lparr>generate_content := (\<lambda>n prompt. Inl GenerationError)\<rparr>"

subsection \<open>The calendar\<close>

text \<open>The month and the day of day \<open>n\<close> of a year, counted from 0, as \<open>ord2ymd\<close> finds them.\<close>

definition month_of :: "bool \<Rightarrow> nat \<Rightarrow> nat" where
  "month_of leapyear n =
     (let month = (n + 50) div 32;
          preceding = DAYS_BEFORE_MONTH ! month + (if 2 < month \<and> leapyear then 1 else 0)
      in if n < preceding then month - 1 else month)"

definition day_of :: "bool \<Rightarrow> nat \<Rightarrow> nat" where
  "day_of leapyear n =
     (let month = (n + 50) div 32;
          preceding = DAYS_BEFORE_MONTH ! month + (if 2 < month \<and> leapyear then 1 else 0)
      in if n < preceding
         then n - (preceding - (DAYS_IN_MONTH ! (month - 1)
                                + (if month - 1 = 2 \<and> leapyear then 1 else 0))) + 1
         else n - preceding + 1)"

definition month_day_ok :: "bool \<Rightarrow> nat \<Rightarrow> bool" where
  "month_day_ok leapyear n \<longleftrightarrow>
     1 \<le> month_of leapyear n \<and> month_of leapyear n \<le> 12 \<and> 1 \<le> day_of leapyear n
     \<and> day_of leapyear n
         \<le> (if month_of leapyear n = 2 \<and> leapyear then 29
            else DAYS_IN_MONTH ! month_of leapyear n)
     \<and> DAYS_BEFORE_MONTH ! month_of leapyear n
         + (if 2 < month_of leapyear n \<and> leapyear then 1 else 0) + day_of leapyear n
         = n + 1"

section \<open>The result of the normalizer is a dictionary\<close>

fun is_FObject :: "frame \<Rightarrow> bool" where
  "is_FObject (FObject kvs k) = True"
| "is_FObject _ = False"

fun dict_bottom :: "pstate \<Rightarrow> bool" where
  "dict_bottom (PDone v, st) = is_dict v"
| "dict_bottom (ph, st) = (st \<noteq> [] \<and> is_FObject (last st))"

lemma complete_dict_bottom:
  "complete v st = Some s' \<Longrightarrow> st \<noteq> [] \<Longrightarrow> is_FObject (last st) \<Longrightarrow> dict_bottom s'"
  by (induction v st rule: complete.induct) (auto split: if_splits)

lemma close_array_dict_bottom:
  "close_array st = Some s' \<Longrightarrow> st \<noteq> [] \<Longrightarrow> is_FObject (last st) \<Longrightarrow> dict_bottom s'"
  by (induction st rule: close_array.induct)
    (auto split: if_splits intro: complete_dict_bottom)

lemma close_object_dict_bottom:
  "close_object st = Some s' \<Longrightarrow> st \<noteq> [] \<Longrightarrow> is_FObject (last st) \<Longrightarrow> dict_bottom s'"
proof (induction st rule: close_object.induct)
  case (1 kvs st)
  show ?case
  proof (cases st)
    case Nil
    with 1 show ?thesis by auto
  next
    case (Cons f fs)
    with 1 have "complete (JObject kvs) st = Some s'" "st \<noteq> []" "is_FObject (last st)"
      by auto
    then show ?thesis by (rule complete_dict_bottom)
  qed
qed simp_all

lemma value_token_dict_bottom:
  "value_token t st = Some s' \<Longrightarrow> st \<noteq> [] \<Longrightarrow> is_FObject (last st) \<Longrightarrow> dict_bottom s'"
  by (cases t) (auto intro: complete_dict_bottom)

lemma open_key_dict_bottom:
  "open_key t st = Some s' \<Longrightarrow> st \<noteq> [] \<Longrightarrow> is_FObject (last st) \<Longrightarrow> dict_bottom s'"
  by (induction t st rule: open_key.induct) (auto split: if_splits)

lemma after_value_dict_bottom:
  "after_value t st = Some s' \<Longrightarrow> st \<noteq> [] \<Longrightarrow> is_FObject (last st) \<Longrightarrow> dict_bottom s'"
proof (induction t st rule: after_value.induct)
  case (1 t vs st)
  then show ?case
    using close_array_dict_bottom [of "FArray vs # st" s']
    by (auto split: if_splits)
next
  case (2 t kvs st)
  then show ?case
    using close_object_dict_bottom [of "FObject kvs None # st" s']
    by (auto split: if_splits)
qed simp_all

lemma step_dict_bottom:
  "step t s = Some s' \<Longrightarrow> dict_bottom s \<Longrightarrow> dict_bottom s'"
proof (induction t s rule: step.induct)
  case (1 t st)
  then show ?case by (auto intro: value_token_dict_bottom)
next
  case (2 t st)
  then show ?case
    by (auto split: if_splits intro: value_token_dict_bottom close_array_dict_bottom)
next
  case (3 t st)
  then show ?case by (auto intro: open_key_dict_bottom)
next
  case (4 t st)
  then show ?case
    by (auto split: if_splits intro: open_key_dict_bottom close_object_dict_bottom)
next
  case (5 t st)
  then show ?case by (auto split: if_splits)
next
  case (6 t st)
  then show ?case by (auto intro: after_value_dict_bottom)
next
  case (7 t v st)
  then show ?case by simp
qed

lemma parse_tokens_dict_bottom:
  "parse_tokens ts s = Some s' \<Longrightarrow> dict_bottom s \<Longrightarrow> dict_bottom s'"
  by (induction ts s rule: parse_tokens.induct)
    (auto split: option.splits dest: step_dict_bottom)

lemma loads_brace_is_dict:
  assumes "loads (LBRACE # cs) = Inr v"
  shows "is_dict v"
proof -
  from assms obtain ts st where ts: "tokenize (LBRACE # cs) = Some ts"
    and p: "parse_tokens ts (PValue, []) = Some (PDone v, st)"
    by (auto simp: loads_def split: option.splits phase.splits prod.splits)
  from ts obtain ts' where ts': "ts = TLBrace # ts'"
    by (auto simp: is_json_ws_def const_def split: option.splits)
  from p ts' have "parse_tokens ts' (PKeyOrEnd, [FObject [] None]) = Some (PDone v, st)"
    by simp
  then have "dict_bottom (PDone v, st)"
    by (rule parse_tokens_dict_bottom) simp
  then show ?thesis by simp
qed

lemma search_braces_shape:
  assumes "search_braces t = Some js"
  shows "\<exists>body. js = LBRACE # body"
proof -
  define s where "s = dropWhile (\<lambda>c. c \<noteq> LBRACE) t"
  from assms have ne: "s \<noteq> []" and r: "RBRACE \<in> set s"
    and js: "js = rev (dropWhile (\<lambda>c. c \<noteq> RBRACE) (rev s))"
    by (auto simp: search_braces_def Let_def s_def split: if_splits)
  from ne have "hd s = LBRACE"
    unfolding s_def using hd_dropWhile [of "\<lambda>c. c \<noteq> LBRACE" t] by auto
  with ne obtain s' where s: "s = LBRACE # s'" by (cases s) auto
  with r have r': "RBRACE \<in> set s'" by auto
  have "rev (dropWhile (\<lambda>c. c \<noteq> RBRACE) (rev s' @ [LBRACE]))
      = rev (dropWhile (\<lambda>c. c \<noteq> RBRACE) (rev s') @ [LBRACE])"
    using r' by (simp add: dropWhile_append1)
  with js s show ?thesis by simp
qed

lemma repair_brace: "repair_trailing_commas (LBRACE # cs) = LBRACE # repair_trailing_commas cs"
  by simp

lemma set_re_sub_delete: "set (re_sub_delete lit s) \<subseteq> set s"
proof (induction lit s rule: re_sub_delete.induct)
  case (1 lit)
  then show ?case by simp
next
  case (2 lit c cs)
  show ?case
  proof (cases "lit \<noteq> [] \<and> prefix lit (c # cs)")
    case True
    have "set (dropWhile is_space (drop (length lit) (c # cs))) \<subseteq> set (c # cs)"
      using set_dropWhileD set_drop_subset by fastforce
    with True "2.IH"(1) show ?thesis by auto
  next
    case False
    with "2.IH"(2) show ?thesis by auto
  qed
qed

lemma set_search_braces: "search_braces t = Some js \<Longrightarrow> set js \<subseteq> set t"
proof -
  assume "search_braces t = Some js"
  then have "js = rev (dropWhile (\<lambda>c. c \<noteq> RBRACE) (rev (dropWhile (\<lambda>c. c \<noteq> LBRACE) t)))"
    by (auto simp: search_braces_def Let_def split: if_splits)
  then show ?thesis
    by (auto dest!: set_dropWhileD)
qed

lemma set_repair_trailing_commas: "set (repair_trailing_commas s) \<subseteq> set s"
proof (induction s rule: repair_trailing_commas.induct)
  case 1
  then show ?case by simp
next
  case (2 c cs)
  show ?case
  proof (cases "c = COMMA")
    case False
    with "2.IH"(4) show ?thesis by auto
  next
    case True
    show ?thesis
    proof (cases "dropWhile is_space cs")
      case Nil
      with True "2.IH"(1) show ?thesis
        by (auto simp del: dropWhile_eq_Nil_conv)
    next
      case (Cons d ds)
      then have sub: "set (d # ds) \<subseteq> set cs"
        using set_dropWhileD [of _ is_space cs] by auto
      show ?thesis
      proof (cases "is_closer d")
        case c: True
        from "2.IH"(2) [OF True Cons c] sub True Cons c show ?thesis by auto
      next
        case c: False
        from "2.IH"(3) [OF True Cons c] True Cons c show ?thesis by auto
      qed
    qed
  qed
qed
lemma encodable_subset: "encodable s \<Longrightarrow> set t \<subseteq> set s \<Longrightarrow> encodable t"
  by (auto simp: encodable_def list_all_iff)

lemma encodable_candidate:
  assumes "encodable raw"
    and "search_braces (re_sub_delete FENCE (re_sub_delete FENCE_JSON raw)) = Some js"
  shows "encodable (take 500 (repair_trailing_commas js))"
proof -
  have "set (take 500 (repair_trailing_commas js)) \<subseteq> set (repair_trailing_commas js)"
    by (rule set_take_subset)
  also have "\<dots> \<subseteq> set js" by (rule set_repair_trailing_commas)
  also have "\<dots> \<subseteq> set (re_sub_delete FENCE (re_sub_delete FENCE_JSON raw))"
    using assms(2) by (rule set_search_braces)
  also have "\<dots> \<subseteq> set (re_sub_delete FENCE_JSON raw)" by (rule set_re_sub_delete)
  also have "\<dots> \<subseteq> set raw" by (rule set_re_sub_delete)
  finally show ?thesis using assms(1) encodable_subset by blast
qed

lemma normalize_cases:
  "clean_and_parse_response raw = Inr default_draft \<or>
   (\<exists>js. search_braces (re_sub_delete FENCE (re_sub_delete FENCE_JSON raw)) = Some js \<and>
      \<not> encodable (take 500 (repair_trailing_commas js)) \<and>
      clean_and_parse_response raw = Inl UnicodeEncodeError) \<or>
   (\<exists>js kvs. search_braces (re_sub_delete FENCE (re_sub_delete FENCE_JSON raw)) = Some js \<and>
      loads (repair_trailing_commas js) = Inr (JObject kvs) \<and>
      clean_and_parse_response raw = Inr (JObject kvs))"
proof (cases "search_braces (re_sub_delete FENCE (re_sub_delete FENCE_JSON raw))")
  case None
  then show ?thesis by (simp add: clean_and_parse_response_def)
next
  case (Some js)
  then obtain body where js: "js = LBRACE # body"
    using search_braces_shape by blast
  show ?thesis
  proof (cases "loads (repair_trailing_commas js)")
    case (Inl e)
    with Some show ?thesis
      by (cases e) (simp_all add: clean_and_parse_response_def)
  next
    case (Inr v)
    with js have "is_dict v"
      using loads_brace_is_dict [of "repair_trailing_commas body" v] by simp
    then obtain kvs where "v = JObject kvs" by (cases v) auto
    with Some Inr show ?thesis by (simp add: clean_and_parse_response_def)
  qed
qed

text \<open>The definitions that a concrete run of the normalizer unfolds.\<close>

lemmas normalizer_eval = clean_and_parse_response_def loads_def str_def FENCE_JSON_def FENCE_def
  search_braces_def is_space_def is_closer_def is_json_ws_def is_digit_def const_def consc_def
  lex_number_def lex_fraction_def lex_exponent_def dec_val_def unescape_def hex_val_def
  low_surrogate_at_def encodable_def is_surrogate_def Let_def

text \<open>
  A candidate that does not parse and has a lone surrogate in it: the \<open>print\<close> of the
  handler raises, and the exception leaves the function.
\<close>

lemma normalize_print_raises:
  "clean_and_parse_response [LBRACE, 55296, RBRACE] = Inl UnicodeEncodeError"
  by (simp add: normalizer_eval)

text \<open>
  Claim C10. For every raw text, a value that \<open>clean_and_parse_response\<close> returns is
  a dictionary and nothing else: the candidate handed to \<open>json.loads\<close> begins with an
  opening brace, so a successful parse is an object, and every other branch that returns,
  returns the canned dictionary. The \<open>get\<close> calls of the orchestrator on the result
  are thereby defined. The only other outcome is the \<open>UnicodeEncodeError\<close> of the
  handler's \<open>print\<close>, with which nothing is returned.
\<close>

theorem normalize_returns_dict:
  "(\<exists>kvs. clean_and_parse_response raw = Inr (JObject kvs))
   \<or> clean_and_parse_response raw = Inl UnicodeEncodeError"
  using normalize_cases [of raw] by (auto simp: default_draft_def)

lemma default_draft_fields: "set DRAFT_FIELDS \<subseteq> set (keys default_draft)"
  by (simp add: DRAFT_FIELDS_def default_draft_def)

text \<open>
  Claim C1, amended. For every raw text without surrogate code points,
  \<open>clean_and_parse_response\<close> raises nothing and returns a dictionary. The dictionary is
  the one \<open>json.loads\<close> reads from the repaired candidate, returned as it is, with no
  field added; or it is the canned itinerary, and that one has all six fields.
\<close>

theorem normalize_never_raises:
  assumes "encodable raw"
  shows "(\<exists>d. clean_and_parse_response raw = Inr d \<and> is_dict d \<and>
      (d = default_draft \<or>
       (\<exists>js. search_braces (re_sub_delete FENCE (re_sub_delete FENCE_JSON raw)) = Some js \<and>
          loads (repair_trailing_commas js) = Inr d)))
   \<and> set DRAFT_FIELDS \<subseteq> set (keys default_draft)"
proof -
  have "is_dict default_draft" by (simp add: default_draft_def)
  with normalize_cases [of raw] encodable_candidate [OF assms] default_draft_fields
  show ?thesis by auto
qed

text \<open>A text with a trailing comma in its JSON, and one that has no JSON.\<close>

theorem normalize_never_raises_witness:
  \<open>encodable (str ''Here: {"a": 1,}'')
   \<and> clean_and_parse_response (str ''Here: {"a": 1,}'') = Inr (JObject [(str ''a'', JInt 1)])
   \<and> set DRAFT_FIELDS \<subseteq> set (keys default_draft)\<close>
proof -
  have h: \<open>encodable (str ''Here: {"a": 1,}'')\<close>
    by (simp add: encodable_def is_surrogate_def str_def)
  have r: \<open>clean_and_parse_response (str ''Here: {"a": 1,}'') = Inr (JObject [(str ''a'', JInt 1)])\<close>
    by (simp add: normalizer_eval)
  from normalize_never_raises [OF h] r h show ?thesis by simp
qed

text \<open>The claim as stated fails: a parsed dictionary keeps the fields it has.\<close>

theorem normalize_missing_fields_counterexample:
  \<open>clean_and_parse_response (str ''{"a": 1}'') = Inr (JObject [(str ''a'', JInt 1)])
   \<and> str ''destination'' \<notin> set (keys (JObject [(str ''a'', JInt 1)]))\<close>
  by (simp add: normalizer_eval)

section \<open>The pipelines fall back\<close>

lemmas io_defs = io_bind_def io_try_def io_return_def io_raise_def io_lift_def request_def

lemma not_falsy: "\<not> falsy x \<Longrightarrow> \<exists>s. x = Some s \<and> s \<noteq> []"
  by (cases x) auto

lemma search_flights_cases_raw:
  "fst (search_flights w origin destination dep ret n)
     = Inr (get_fallback_flights origin destination dep ret)
   \<or> (\<exists>token origin_code dest_code data flights n1 n2 n3.
        get_amadeus_token w n = (Inr (Some token), n1) \<and> token \<noteq> [] \<and>
        search_city_code w origin n1 = (Inr (Some origin_code), n2) \<and> origin_code \<noteq> [] \<and>
        search_city_code w destination n2 = (Inr (Some dest_code), n3) \<and> dest_code \<noteq> [] \<and>
        get_flight_offers w n3 token origin_code dest_code dep ret = Response 200 (Inr data) \<and>
        collect (flight_of_offer (carriers data) origin_code dest_code dep ret)
          (take 3 (flight_data data)) = Inr flights \<and>
        flights \<noteq> [] \<and>
        search_flights w origin destination dep ret n = (Inr flights, Suc n3))"
proof (cases "get_amadeus_token w n")
  case (Pair r1 n1)
  note tok = this
  show ?thesis
  proof (cases r1)
    case (Inl e)
    with tok show ?thesis by (simp add: search_flights_def io_defs)
  next
    case (Inr token)
    note tokv = this
    show ?thesis
    proof (cases "falsy token")
      case True
      with tok tokv show ?thesis by (simp add: search_flights_def io_defs)
    next
      case False
      then obtain t where t: "token = Some t" "t \<noteq> []" using not_falsy by blast
      obtain r2 n2 where oc: "search_city_code w origin n1 = (r2, n2)"
        by (cases "search_city_code w origin n1")
      obtain r3 n3 where dc: "search_city_code w destination n2 = (r3, n3)"
        by (cases "search_city_code w destination n2")
      show ?thesis
      proof (cases r2)
        case (Inl e)
        with tok tokv t oc show ?thesis by (simp add: search_flights_def io_defs)
      next
        case (Inr c2)
        note r2 = this
        show ?thesis
        proof (cases r3)
          case (Inl e)
          with tok tokv t oc dc r2 show ?thesis by (simp add: search_flights_def io_defs)
        next
          case (Inr c3)
          note r3 = this
          show ?thesis
          proof (cases "falsy c2 \<or> falsy c3")
            case True
            with tok tokv t oc dc r2 r3 show ?thesis
              by (auto simp: search_flights_def io_defs)
          next
            case False
            then obtain o2 o3 where o: "c2 = Some o2" "o2 \<noteq> []" "c3 = Some o3" "o3 \<noteq> []"
              using not_falsy by blast
            show ?thesis
            proof (cases "get_flight_offers w n3 t o2 o3 dep ret")
              case (Raises e)
              with tok tokv t oc dc r2 r3 o show ?thesis
                by (simp add: search_flights_def io_defs)
            next
              case (Response st body)
              with tok tokv t oc dc r2 r3 o show ?thesis
                by (auto simp: search_flights_def io_defs split: sum.splits)
            qed
          qed
        qed
      qed
    qed
  qed
qed



lemma search_flights_cases:
  "fst (search_flights w origin destination dep ret n)
     = Inr (get_fallback_flights origin destination dep ret)
   \<or> flights_live w origin destination dep ret n"
  unfolding flights_live_def by (rule search_flights_cases_raw)

lemma search_hotels_cases_raw:
  "fst (search_hotels w city_name check_in check_out n) = Inr (get_fallback_hotels city_name)
   \<or> (\<exists>token city_code data hotel_ids hotels n1 n2 n3.
        get_amadeus_token w n = (Inr (Some token), n1) \<and> token \<noteq> [] \<and>
        search_city_code w city_name n1 = (Inr (Some city_code), n2) \<and> city_code \<noteq> [] \<and>
        get_hotels_by_city w n2 token city_code = Response 200 (Inr data) \<and>
        collect subscript (take 5 data) = Inr hotel_ids \<and>
        hotels_loop (hotel_of_id w token city_name check_in check_out) hotel_ids [] (Suc n2)
          = (Inr hotels, n3) \<and>
        hotels \<noteq> [] \<and>
        search_hotels w city_name check_in check_out n = (Inr hotels, n3))"
proof -
  obtain r1 n1 where tok: "get_amadeus_token w n = (r1, n1)"
    by (cases "get_amadeus_token w n")
  show ?thesis
  proof (cases r1)
    case (Inl e)
    with tok show ?thesis by (simp add: search_hotels_def io_defs)
  next
    case (Inr token)
    note tokv = this
    show ?thesis
    proof (cases "falsy token")
      case True
      with tok tokv show ?thesis by (simp add: search_hotels_def io_defs)
    next
      case False
      then obtain t where t: "token = Some t" "t \<noteq> []" using not_falsy by blast
      obtain r2 n2 where cc: "search_city_code w city_name n1 = (r2, n2)"
        by (cases "search_city_code w city_name n1")
      show ?thesis
      proof (cases r2)
        case (Inl e)
        with tok tokv t cc show ?thesis by (simp add: search_hotels_def io_defs)
      next
        case (Inr c2)
        note r2 = this
        show ?thesis
        proof (cases "falsy c2")
          case True
          with tok tokv t cc r2 show ?thesis by (simp add: search_hotels_def io_defs)
        next
          case False
          then obtain code where code: "c2 = Some code" "code \<noteq> []"
            using not_falsy by blast
          show ?thesis
          proof (cases "get_hotels_by_city w n2 t code")
            case (Raises e)
            with tok tokv t cc r2 code show ?thesis
              by (simp add: search_hotels_def io_defs)
          next
            case (Response st body)
            note resp = this
            show ?thesis
            proof (cases "st = 200")
              case False
              with resp tok tokv t cc r2 code show ?thesis
                by (simp add: search_hotels_def io_defs)
            next
              case True
              note st = this
              show ?thesis
              proof (cases body)
                case (Inl e)
                with st resp tok tokv t cc r2 code show ?thesis
                  by (simp add: search_hotels_def io_defs)
              next
                case (Inr data)
                note data = this
                show ?thesis
                proof (cases "collect subscript (take 5 data)")
                  case (Inl e)
                  with data st resp tok tokv t cc r2 code show ?thesis
                    by (simp add: search_hotels_def io_defs)
                next
                  case (Inr hotel_ids)
                  note ids = this
                  obtain r4 n4 where lp:
                    "hotels_loop (hotel_of_id w t city_name check_in check_out) hotel_ids []
                       (Suc n2) = (r4, n4)"
                    by (cases "hotels_loop (hotel_of_id w t city_name check_in check_out)
                          hotel_ids [] (Suc n2)")
                  with ids data st resp tok tokv t cc r2 code show ?thesis
                    by (cases r4) (auto simp: search_hotels_def io_defs)
                qed
              qed
            qed
          qed
        qed
      qed
    qed
  qed
qed


lemma search_hotels_cases:
  "fst (search_hotels w city_name check_in check_out n) = Inr (get_fallback_hotels city_name)
   \<or> hotels_live w city_name check_in check_out n"
  unfolding hotels_live_def by (rule search_hotels_cases_raw)

lemma get_fallback_weather_again:
  "\<exists>k. io_try (get_fallback_weather w city_name) (\<lambda>e. get_fallback_weather w city_name) n
     = get_fallback_weather w city_name k"
proof (cases "get_fallback_weather w city_name n")
  case (Pair r n')
  show ?thesis
  proof (cases r)
    case (Inl e)
    with Pair show ?thesis by (auto simp: io_try_def)
  next
    case (Inr x)
    with Pair have "io_try (get_fallback_weather w city_name)
        (\<lambda>e. get_fallback_weather w city_name) n = get_fallback_weather w city_name n"
      by (simp add: io_try_def)
    then show ?thesis by blast
  qed
qed

lemma get_weather_forecast_cases_raw:
  "(\<exists>k. get_weather_forecast w city_name start_date end_date n
       = get_fallback_weather w city_name k)
   \<or> (\<exists>key places lat lon items forecast.
        OPENWEATHER_API_KEY w = Some key \<and> key \<noteq> [] \<and>
        get_geocode w n city_name key = Response 200 (Inr ((Some lat, Some lon) # places)) \<and>
        get_forecast w (Suc n) lat lon key = Response 200 (Inr items) \<and>
        forecast_loop w items [] {} = Inr forecast \<and> forecast \<noteq> [] \<and>
        get_weather_forecast w city_name start_date end_date n = (Inr forecast, Suc (Suc n)))"
proof -
  have again: "\<And>m. \<exists>k. (case get_fallback_weather w city_name m of
        (Inl e, n') \<Rightarrow> get_fallback_weather w city_name n'
      | (Inr x, n') \<Rightarrow> (Inr x, n')) = get_fallback_weather w city_name k"
    using get_fallback_weather_again [of w city_name] by (simp add: io_try_def)
  show ?thesis
  proof (cases "falsy (OPENWEATHER_API_KEY w)")
    case True
    with again [of n] show ?thesis by (simp add: get_weather_forecast_def io_try_def)
  next
    case False
    then obtain key where key: "OPENWEATHER_API_KEY w = Some key" "key \<noteq> []"
      using not_falsy by blast
    show ?thesis
    proof (cases "get_geocode w n city_name key")
      case (Raises e)
      with key show ?thesis
        by (auto simp: get_weather_forecast_def io_defs)
    next
      case (Response st body)
      note geo = this
      show ?thesis
      proof (cases "st = 200")
        case False
        with geo key again [of "Suc n"] show ?thesis
          by (simp add: get_weather_forecast_def io_defs)
      next
        case True
        note st = this
        show ?thesis
        proof (cases body)
          case (Inl e)
          with st geo key show ?thesis
            by (auto simp: get_weather_forecast_def io_defs)
        next
          case (Inr places)
          note body = this
          show ?thesis
          proof (cases places)
            case Nil
            with body st geo key again [of "Suc n"] show ?thesis
              by (simp add: get_weather_forecast_def io_defs)
          next
            case (Cons place rest)
            obtain olat olon where place: "place = (olat, olon)" by (cases place)
            note places = Cons [unfolded place]
            show ?thesis
            proof (cases olat)
              case None
              with places body st geo key show ?thesis
                by (auto simp: get_weather_forecast_def io_defs)
            next
              case (Some lat)
              note lat = this
              show ?thesis
              proof (cases olon)
                case None
                with lat places body st geo key show ?thesis
                  by (auto simp: get_weather_forecast_def io_defs)
              next
                case (Some lon)
                note lon = this
                show ?thesis
                proof (cases "get_forecast w (Suc n) lat lon key")
                  case (Raises e)
                  with lon lat places body st geo key show ?thesis
                    by (auto simp: get_weather_forecast_def io_defs)
                next
                  case (Response st2 body2)
                  note fc = this
                  show ?thesis
                  proof (cases "st2 = 200")
                    case False
                    with fc lon lat places body st geo key again [of "Suc (Suc n)"]
                    show ?thesis
                      by (simp add: get_weather_forecast_def io_defs)
                  next
                    case True
                    note st2 = this
                    show ?thesis
                    proof (cases body2)
                      case (Inl e)
                      with st2 fc lon lat places body st geo key show ?thesis
                        by (auto simp: get_weather_forecast_def io_defs)
                    next
                      case (Inr items)
                      note items = this
                      show ?thesis
                      proof (cases "forecast_loop w items [] {}")
                        case (Inl e)
                        with items st2 fc lon lat places body st geo key show ?thesis
                          by (auto simp: get_weather_forecast_def io_defs)
                      next
                        case (Inr forecast)
                        with items st2 fc lon lat places body st geo key
                          again [of "Suc (Suc n)"]
                        show ?thesis
                          by (cases "forecast = []")
                            (simp_all add: get_weather_forecast_def io_defs)
                      qed
                    qed
                  qed
                qed
              qed
            qed
          qed
        qed
      qed
    qed
  qed
qed



lemma get_weather_forecast_cases:
  "(\<exists>k. get_weather_forecast w city_name start_date end_date n
       = get_fallback_weather w city_name k)
   \<or> weather_live w city_name start_date end_date n"
  unfolding weather_live_def by (rule get_weather_forecast_cases_raw)

lemma fallback_flights_marked:
  "length (get_fallback_flights origin destination dep ret) = 3 \<and>
   list_all (has_marker (str ''note'') (str ''(Fallback Data)''))
     (get_fallback_flights origin destination dep ret)"
  by (simp add: get_fallback_flights_def flight_record_def has_marker_def str_def
      suffix_to_prefix)

lemma fallback_hotels_marked:
  "length (get_fallback_hotels city_name) = 3 \<and>
   list_all (has_marker (str ''amenities'') (str ''(Fallback Data)''))
     (get_fallback_hotels city_name)"
  by (simp add: get_fallback_hotels_def hotel_record_def has_marker_def str_def
      suffix_to_prefix)

lemma fallback_forecast_marked:
  "length (fallback_forecast base) = 5 \<and>
   list_all (has_marker (str ''description'') (str ''(Fallback)'')) (fallback_forecast base)"
  by (simp add: fallback_forecast_def weather_record_def has_marker_def str_def
      suffix_to_prefix)

lemma upt_5: "[0 ..< 5] = [0, 1, 2, 3, 4]"
  by (simp add: upt_rec)

lemma get_fallback_weather_in_range:
  assumes "clock_in_range w"
  shows "get_fallback_weather w city_name k = (Inr (fallback_forecast (today w k)), Suc k)"
proof -
  from assms have r: "1 \<le> today w k" "today w k + 6 \<le> MAXORDINAL"
    by (auto simp: clock_in_range_def)
  have fd: "\<And>i. i \<le> 4 \<Longrightarrow> fallback_day (today w k) i
      = Inr (weather_record (strftime_ymd (ord2ymd (today w k + i))) (20 + int (i mod 5))
               (str ''Partly Cloudy (Fallback)'') (str ''02d''))"
    using r
    by (simp add: fallback_day_def date_plus_def add_days_def MAXORDINAL_def nat_add_distrib)
  have "collect (fallback_day (today w k)) [0, 1, 2, 3, 4]
      = Inr (fallback_forecast (today w k))"
    by (simp add: fd fallback_forecast_def)
  then show ?thesis
    by (simp add: get_fallback_weather_def now_def io_bind_def io_lift_def upt_5)
qed

lemma token_without_credentials:
  "falsy (AMADEUS_API_KEY w) \<or> falsy (AMADEUS_API_SECRET w)
   \<Longrightarrow> get_amadeus_token w n = (Inr None, n)"
  by (auto simp: get_amadeus_token_def io_defs)

text \<open>
  Claim C4. Each of the three pipelines returns exactly its fallback list unless every
  stage of its chain gave usable data (\<open>flights_live\<close>, \<open>hotels_live\<close>,
  \<open>weather_live\<close>): a missing credential, a failed code resolution, a status other than
  200, an empty result and an exception all end in the fallback list, and no exception
  leaves a pipeline. The fallback lists have 3, 3 and 5 records, each with its marker.
  The clock is assumed to read a date from which the five fallback days exist.
\<close>

theorem pipelines_fall_back:
  assumes "clock_in_range w"
  shows
    "(fst (search_flights w origin destination departure_date return_date n)
        = Inr (get_fallback_flights origin destination departure_date return_date)
      \<or> flights_live w origin destination departure_date return_date n)
   \<and> (fst (search_hotels w city_name check_in check_out n) = Inr (get_fallback_hotels city_name)
      \<or> hotels_live w city_name check_in check_out n)
   \<and> ((\<exists>k. get_weather_forecast w city_name check_in check_out n
             = (Inr (fallback_forecast (today w k)), Suc k))
      \<or> weather_live w city_name check_in check_out n)
   \<and> (falsy (AMADEUS_API_KEY w) \<or> falsy (AMADEUS_API_SECRET w) \<longrightarrow>
        fst (search_flights w origin destination departure_date return_date n)
          = Inr (get_fallback_flights origin destination departure_date return_date) \<and>
        fst (search_hotels w city_name check_in check_out n)
          = Inr (get_fallback_hotels city_name))
   \<and> (falsy (OPENWEATHER_API_KEY w) \<longrightarrow>
        get_weather_forecast w city_name check_in check_out n
          = (Inr (fallback_forecast (today w n)), Suc n))
   \<and> length (get_fallback_flights origin destination departure_date return_date) = 3
   \<and> list_all (has_marker (str ''note'') (str ''(Fallback Data)''))
        (get_fallback_flights origin destination departure_date return_date)
   \<and> length (get_fallback_hotels city_name) = 3
   \<and> list_all (has_marker (str ''amenities'') (str ''(Fallback Data)''))
        (get_fallback_hotels city_name)
   \<and> (\<forall>base. length (fallback_forecast base) = 5
        \<and> list_all (has_marker (str ''description'') (str ''(Fallback)''))
             (fallback_forecast base))"
proof -
  have w1: "(\<exists>k. get_weather_forecast w city_name check_in check_out n
             = (Inr (fallback_forecast (today w k)), Suc k))
      \<or> weather_live w city_name check_in check_out n"
    using get_weather_forecast_cases [of w city_name check_in check_out n]
      get_fallback_weather_in_range [OF assms, of city_name]
    by auto
  have c: "falsy (AMADEUS_API_KEY w) \<or> falsy (AMADEUS_API_SECRET w) \<longrightarrow>
        fst (search_flights w origin destination departure_date return_date n)
          = Inr (get_fallback_flights origin destination departure_date return_date) \<and>
        fst (search_hotels w city_name check_in check_out n)
          = Inr (get_fallback_hotels city_name)"
    using search_flights_cases [of w origin destination departure_date return_date n]
      search_hotels_cases [of w city_name check_in check_out n]
      token_without_credentials [of w n]
    by (auto simp: flights_live_def hotels_live_def)
  have k: "falsy (OPENWEATHER_API_KEY w) \<longrightarrow>
        get_weather_forecast w city_name check_in check_out n
          = (Inr (fallback_forecast (today w n)), Suc n)"
    using get_fallback_weather_in_range [OF assms, of city_name n]
    by (simp add: get_weather_forecast_def io_try_def)
  from w1 c k search_flights_cases [of w origin destination departure_date return_date n]
    search_hotels_cases [of w city_name check_in check_out n]
    fallback_flights_marked [of origin destination departure_date return_date]
    fallback_hotels_marked [of city_name] fallback_forecast_marked
  show ?thesis by blast
qed

text \<open>The offline world satisfies the assumption, and there every pipeline falls back.\<close>

theorem pipelines_fall_back_witness:
  "clock_in_range offline_world
   \<and> fst (search_flights offline_world (str ''New York'') (str ''Paris'') (str ''2024-01-01'')
            (str ''2024-01-08'') 0)
       = Inr (get_fallback_flights (str ''New York'') (str ''Paris'') (str ''2024-01-01'')
            (str ''2024-01-08''))
   \<and> fst (search_hotels offline_world (str ''Paris'') (str ''2024-01-01'') (str ''2024-01-08'') 0)
       = Inr (get_fallback_hotels (str ''Paris''))
   \<and> get_weather_forecast offline_world (str ''Paris'') (str ''2024-01-01'') (str ''2024-01-08'') 0
       = (Inr (fallback_forecast 738886), 1)"
proof -
  have h: "clock_in_range offline_world"
    by (simp add: clock_in_range_def offline_world_def MAXORDINAL_def)
  have f: "falsy (AMADEUS_API_KEY offline_world)" "falsy (OPENWEATHER_API_KEY offline_world)"
    by (simp_all add: offline_world_def)
  have t: "today offline_world 0 = 738886" by (simp add: offline_world_def)
  from pipelines_fall_back [OF h, of "str ''New York''" "str ''Paris''" "str ''2024-01-01''"
      "str ''2024-01-08''" 0 "str ''Paris''" "str ''2024-01-01''" "str ''2024-01-08''"] f t h
  show ?thesis by simp
qed

section \<open>The forecast has one record per date\<close>

lemma forecast_loop_full:
  "5 \<le> length forecast \<Longrightarrow> forecast_loop w items forecast seen = Inr res \<Longrightarrow> res = forecast"
  by (induction items arbitrary: forecast seen)
    (auto split: sum.splits list.splits if_splits option.splits)

lemma set_first_per_key: "set (first_per_key key xs) \<subseteq> set xs"
  by (induction key xs rule: first_per_key.induct) auto

lemma distinct_first_per_key: "distinct (map key (first_per_key key xs))"
proof (induction key xs rule: first_per_key.induct)
  case (1 key)
  then show ?case by simp
next
  case (2 key x xs)
  have "key x \<notin> key ` set (first_per_key key (filter (\<lambda>y. key y \<noteq> key x) xs))"
    using set_first_per_key [of key "filter (\<lambda>y. key y \<noteq> key x) xs"] by auto
  with 2 show ?case by simp
qed

lemma forecast_loop_step:
  assumes "forecast_loop w (item # items) forecast seen = Inr res"
  obtains d where "item_date w item = Some d" "d \<in> seen \<or> 5 \<le> length forecast"
      "forecast_loop w items forecast seen = Inr res"
  | d e where "item_date w item = Some d" "d \<notin> seen" "length forecast < 5"
      "item_record w item = Inr e"
      "forecast_loop w items (forecast @ [e]) (insert d seen) = Inr res"
proof -
  from assms obtain t d where t: "item_dt item = Some t" and d: "timestamp_date w t = Inr d"
    by (cases "item_dt item"; cases "timestamp_date w (the (item_dt item))") auto
  then have key: "item_date w item = Some d" by (simp add: item_date_def)
  show ?thesis
  proof (cases "d \<notin> seen \<and> length forecast < 5")
    case False
    with assms t d have "forecast_loop w items forecast seen = Inr res" by auto
    with key False that(1) show ?thesis by auto
  next
    case True
    with assms t d obtain tmp wd wds desc icn where
      f: "main_temp item = Some tmp" "item_weather item = wd # wds"
         "description wd = Some desc" "icon wd = Some icn"
      by (cases "main_temp item"; cases "item_weather item";
          cases "description (hd (item_weather item))"; cases "icon (hd (item_weather item))")
        auto
    with key have e: "item_record w item = Inr (weather_record d (py_round tmp) (str_title w desc) icn)"
      by (simp add: item_record_def)
    from assms t d True f have
      "forecast_loop w items (forecast @ [weather_record d (py_round tmp) (str_title w desc) icn])
         (insert d seen) = Inr res"
      by simp
    with key True e that(2) show ?thesis by blast
  qed
qed

lemma forecast_loop_spec:
  "forecast_loop w items forecast seen = Inr res \<Longrightarrow>
   \<exists>new. res = forecast @ new \<and>
     collect (item_record w)
       (take (5 - length forecast)
          (first_per_key (item_date w) (filter (\<lambda>i. item_date w i \<notin> Some ` seen) items)))
     = Inr new"
proof (induction items arbitrary: forecast seen)
  case Nil
  then show ?case by simp
next
  case (Cons item items)
  from Cons.prems show ?case
  proof (cases rule: forecast_loop_step)
    case (1 d)
    from Cons.IH [OF 1(3)] obtain new where new: "res = forecast @ new"
      "collect (item_record w)
         (take (5 - length forecast)
            (first_per_key (item_date w) (filter (\<lambda>i. item_date w i \<notin> Some ` seen) items)))
       = Inr new"
      by blast
    show ?thesis
    proof (cases "d \<in> seen")
      case True
      with 1(1) new show ?thesis by simp
    next
      case False
      with 1(2) have full: "5 \<le> length forecast" by simp
      from forecast_loop_full [OF full 1(3)] have "res = forecast" .
      with full show ?thesis by simp
    qed
  next
    case (2 d e)
    from Cons.IH [OF 2(5)] obtain new where new: "res = (forecast @ [e]) @ new"
      "collect (item_record w)
         (take (5 - length (forecast @ [e]))
            (first_per_key (item_date w)
               (filter (\<lambda>i. item_date w i \<notin> Some ` insert d seen) items)))
       = Inr new"
      by blast
    let ?rest = "take (5 - length (forecast @ [e]))
        (first_per_key (item_date w)
           (filter (\<lambda>i. item_date w i \<notin> Some ` insert d seen) items))"
    have flt: "filter (\<lambda>y. item_date w y \<noteq> item_date w item)
          (filter (\<lambda>i. item_date w i \<notin> Some ` seen) items)
        = filter (\<lambda>i. item_date w i \<notin> Some ` insert d seen) items"
      using 2(1) by (auto intro: filter_cong)
    have hd: "filter (\<lambda>i. item_date w i \<notin> Some ` seen) (item # items)
        = item # filter (\<lambda>i. item_date w i \<notin> Some ` seen) items"
      using 2(1,2) by auto
    have tk: "5 - length forecast = Suc (5 - length (forecast @ [e]))"
      using 2(3) by simp
    have "take (5 - length forecast)
          (first_per_key (item_date w)
             (filter (\<lambda>i. item_date w i \<notin> Some ` seen) (item # items)))
        = item # ?rest"
      by (simp only: hd first_per_key.simps flt tk take_Suc_Cons)
    moreover have "collect (item_record w) (item # ?rest) = Inr (e # new)"
      using 2(4) new(2) by simp
    ultimately have "collect (item_record w)
       (take (5 - length forecast)
          (first_per_key (item_date w)
             (filter (\<lambda>i. item_date w i \<notin> Some ` seen) (item # items))))
       = Inr (e # new)"
      by simp
    with new(1) show ?thesis by simp
  qed
qed

lemma collect_length: "collect f xs = Inr ys \<Longrightarrow> length ys = length xs"
  by (induction xs arbitrary: ys) (auto split: sum.splits)

lemma collect_map: "collect f xs = Inr ys \<Longrightarrow> map Inr ys = map f xs"
  by (induction xs arbitrary: ys) (auto split: sum.splits)

lemma item_record_date:
  "item_record w item = Inr e \<Longrightarrow> record_date e = map_option JString (item_date w item)"
  by (auto simp: item_record_def record_date_def weather_record_def str_def
      split: option.splits list.splits)

lemma collect_record_dates:
  "collect (item_record w) xs = Inr ys \<Longrightarrow>
   map record_date ys = map (\<lambda>i. map_option JString (item_date w i)) xs"
  by (induction xs arbitrary: ys) (auto split: sum.splits simp: item_record_date)

lemma forecast_dates_distinct:
  assumes "collect (item_record w) (take k (first_per_key (item_date w) items)) = Inr forecast"
  shows "distinct (map record_date forecast)"
proof -
  let ?xs = "take k (first_per_key (item_date w) items)"
  have "distinct (map (item_date w) ?xs)"
    using distinct_first_per_key [of "item_date w" items]
    by (simp add: take_map [symmetric])
  moreover have "inj (map_option JString)"
    by (rule option.inj_map) (simp add: inj_def)
  then have "inj_on (map_option JString) (set (map (item_date w) ?xs))"
    by (rule inj_on_subset) simp
  ultimately have "distinct (map (map_option JString) (map (item_date w) ?xs))"
    by (simp only: distinct_map)
  then show ?thesis using collect_record_dates [OF assms] by (simp add: comp_def)
qed


text \<open>
  Claim C5. On the live path of the weather pipeline the result is the list of the records
  of the first item of each calendar date, in the order of the provider's list, cut after
  five: no date occurs twice and there are at most five records.
\<close>

theorem weather_deduplicated:
  assumes "OPENWEATHER_API_KEY w = Some key" and "key \<noteq> []"
    and "get_geocode w n city_name key = Response 200 (Inr ((Some lat, Some lon) # places))"
    and "get_forecast w (Suc n) lat lon key = Response 200 (Inr items)"
    and "forecast_loop w items [] {} = Inr forecast" and "forecast \<noteq> []"
  shows "get_weather_forecast w city_name start_date end_date n = (Inr forecast, Suc (Suc n))
    \<and> collect (item_record w) (take 5 (first_per_key (item_date w) items)) = Inr forecast
    \<and> distinct (map record_date forecast)
    \<and> length forecast \<le> 5"
proof -
  have run: "get_weather_forecast w city_name start_date end_date n
      = (Inr forecast, Suc (Suc n))"
    using assms
    by (simp add: get_weather_forecast_def io_bind_def io_try_def io_return_def io_lift_def
        request_def)
  from forecast_loop_spec [OF assms(5)]
  have spec: "collect (item_record w) (take 5 (first_per_key (item_date w) items))
      = Inr forecast"
    by simp
  from collect_length [OF spec] have "length forecast \<le> 5" by simp
  with run spec forecast_dates_distinct [OF spec] show ?thesis by simp
qed

lemma py_round_examples: "py_round (41 / 2) = 20" "py_round (5 / 2) = 2"
  by code_simp+

lemma weather_world_loop:
  "forecast_loop weather_world weather_items [] {}
     = Inr [weather_record (str ''2024-01-01'') 20 (str ''Light Rain'') (str ''10d''),
            weather_record (str ''2024-01-02'') 2 (str ''Snow'') (str ''13d'')]"
  by (simp add: weather_world_def weather_items_def offline_world_def py_round_examples
      title_def is_upper_def is_lower_def str_def)

text \<open>
  A world whose provider returns three items on two dates: the second item repeats the
  date of the first and is dropped.
\<close>

theorem weather_deduplicated_witness:
  "get_weather_forecast weather_world (str ''Paris'') (str ''2024-01-01'') (str ''2024-01-08'') 0
     = (Inr [weather_record (str ''2024-01-01'') 20 (str ''Light Rain'') (str ''10d''),
             weather_record (str ''2024-01-02'') 2 (str ''Snow'') (str ''13d'')], 2)
   \<and> length weather_items = 3"
proof -
  have k: "OPENWEATHER_API_KEY weather_world = Some (str ''key'')" "str ''key'' \<noteq> []"
    by (simp_all add: weather_world_def str_def)
  have g: "get_geocode weather_world 0 (str ''Paris'') (str ''key'')
      = Response 200 (Inr ((Some 1, Some 2) # []))"
    by (simp add: weather_world_def)
  have f: "get_forecast weather_world (Suc 0) 1 2 (str ''key'') = Response 200 (Inr weather_items)"
    by (simp add: weather_world_def)
  have ne: "[weather_record (str ''2024-01-01'') 20 (str ''Light Rain'') (str ''10d''),
             weather_record (str ''2024-01-02'') 2 (str ''Snow'') (str ''13d'')] \<noteq> []"
    by simp
  from weather_deduplicated [OF k g f weather_world_loop ne,
      of "str ''2024-01-01''" "str ''2024-01-08''"]
  show ?thesis by (simp add: weather_items_def)
qed

section \<open>The two flows of the orchestrator\<close>


lemma io_bind_post:
  assumes "io_bind m f n = (Inr y, n')" and "\<And>x k. f x k = (Inr y, n') \<Longrightarrow> P"
  shows P
  using assms by (auto simp: io_bind_def split: prod.splits sum.splits)

lemma response_data_keys:
  "response_data destination desc draft flights hotels weather = Inr body \<Longrightarrow>
   keys body = RESPONSE_KEYS \<and> dict_get body (str ''success'') JNull = Inr (JBool True)
   \<and> dict_get body (str ''destination'') JNull = Inr destination"
  by (auto simp: response_data_def RESPONSE_KEYS_def str_def split: sum.splits)

lemma flow_end:
  assumes "io_bind (io_lift (response_data destination desc draft flights hotels weather))
      (\<lambda>body. io_return (body, 200)) k = (Inr (body, status), n')"
  shows "status = 200 \<and> keys body = RESPONSE_KEYS
    \<and> dict_get body (str ''success'') JNull = Inr (JBool True)
    \<and> dict_get body (str ''destination'') JNull = Inr destination"
  using assms response_data_keys [of destination desc draft flights hotels weather body]
  by (auto simp: io_bind_def io_lift_def io_return_def split: sum.splits)

lemma itinerary_flow_success:
  assumes "itinerary_flow w form n = (Inr (body, status), n')"
  shows "status = 200 \<and> keys body = RESPONSE_KEYS
    \<and> dict_get body (str ''success'') JNull = Inr (JBool True)"
  using assms unfolding itinerary_flow_def
  apply (erule_tac io_bind_post)
  apply (erule_tac io_bind_post)
  apply (erule_tac io_bind_post)
  apply (erule_tac io_bind_post)
  apply (erule_tac io_bind_post)
  apply (erule_tac io_bind_post)
  apply (erule_tac io_bind_post)
  apply (erule_tac io_bind_post)
  apply (erule_tac io_bind_post)
  apply (erule_tac io_bind_post)
  apply (erule_tac io_bind_post)
  apply (erule_tac io_bind_post)
  apply (erule_tac io_bind_post)
  apply (erule_tac io_bind_post)
  apply (erule_tac io_bind_post)
  apply (erule_tac io_bind_post)
  apply (erule_tac io_bind_post)
  apply (drule flow_end)
  apply simp
  done


lemma surprise_flow_success:
  assumes "surprise_flow w n = (Inr (body, status), n')"
  shows "status = 200 \<and> keys body = RESPONSE_KEYS
    \<and> dict_get body (str ''success'') JNull = Inr (JBool True)"
  using assms unfolding surprise_flow_def
  apply (erule_tac io_bind_post)
  apply (erule_tac io_bind_post)
  apply (erule_tac io_bind_post)
  apply (erule_tac io_bind_post)
  apply (erule_tac io_bind_post)
  apply (erule_tac io_bind_post)
  apply (erule_tac io_bind_post)
  apply (erule_tac io_bind_post)
  apply (erule_tac io_bind_post)
  apply (erule_tac io_bind_post)
  apply (erule_tac io_bind_post)
  apply (erule_tac io_bind_post)
  apply (erule_tac io_bind_post)
  apply (drule flow_end)
  apply simp
  done

lemma io_try_cases:
  "io_try m (\<lambda>e. io_return (h e)) n = (r, n') \<Longrightarrow>
   (\<exists>x. m n = (Inr x, n') \<and> r = Inr x) \<or> (\<exists>e. m n = (Inl e, n') \<and> r = Inr (h e))"
  by (auto simp: io_try_def io_return_def split: prod.splits sum.splits)

lemma error_response_shape:
  "keys (fst (error_response message)) = [str ''success'', str ''error'']
   \<and> dict_get (fst (error_response message)) (str ''success'') JNull = Inr (JBool False)
   \<and> dict_get (fst (error_response message)) (str ''error'') JNull = Inr (JString message)
   \<and> snd (error_response message) = 500"
  by (simp add: error_response_def str_def)







section \<open>Concrete runs in the offline world\<close>

lemmas calendar_eval = strptime_ymd_def parse_month_def parse_day_def is_digit_def valid_date_def
  days_in_month_def DAYS_IN_MONTH_def DAYS_BEFORE_MONTH_def is_leap_def ymd2ord_def
  days_before_year_def days_before_month_def ord2ymd_def strftime_ymd_def digit_char_def
  py_int_def is_int_space_def year_digits_def strip_def is_space_def dec_val_def date_plus_def
  add_days_def MAXORDINAL_def
  compute_return_date_def str_def Let_def

lemma scenario_b:
  "clean_and_parse_response (str ''I cannot help with that.'') = Inr default_draft"
  by (simp add: normalizer_eval)

lemma offline_token: "get_amadeus_token offline_world n = (Inr None, n)"
  by (simp add: get_amadeus_token_def offline_world_def io_try_def io_return_def)

lemma offline_flights:
  "search_flights offline_world origin destination d r n
     = (Inr (get_fallback_flights origin destination d r), n)"
  by (simp add: search_flights_def offline_token io_try_def io_bind_def io_return_def)

lemma offline_hotels:
  "search_hotels offline_world city d r n = (Inr (get_fallback_hotels city), n)"
  by (simp add: search_hotels_def offline_token io_try_def io_bind_def io_return_def)

lemma offline_weather:
  "get_weather_forecast offline_world city d r n = (Inr (fallback_forecast 738886), Suc n)"
proof -
  have "clock_in_range offline_world"
    by (simp add: clock_in_range_def offline_world_def MAXORDINAL_def)
  from get_fallback_weather_in_range [OF this, of city n] show ?thesis
    by (simp add: get_weather_forecast_def io_try_def offline_world_def)
qed

lemma return_date_example:
  "compute_return_date (str ''2024-01-01'') (str ''7'') = Inr (str ''2024-01-08'')"
  by (simp add: calendar_eval)

lemma paris_city: "strip (split_comma_first (str ''Paris, France'')) = str ''Paris''"
  by (simp add: strip_def split_comma_first_def str_def is_space_def)

lemma default_destination:
  "dict_get default_draft (str ''destination'') dflt = Inr (JString (str ''Paris, France''))"
  by (simp add: default_draft_def str_def)

lemma form_example_fields:
  "form_get form_example (str ''mood'') = Inr (str ''relaxed'')"
  "form_get form_example (str ''budget'') = Inr (str ''1000'')"
  "form_get form_example (str ''duration'') = Inr (str ''7'')"
  "form_get form_example (str ''travel_style'') = Inr (str ''solo'')"
  "form_get form_example (str ''origin_city'') = Inr (str ''New York'')"
  "form_get form_example (str ''travel_means'') = Inr (str ''flight'')"
  "form_get form_example (str ''hotel_preference'') = Inr (str ''budget'')"
  "form_get form_example (str ''departure_date'') = Inr (str ''2024-01-01'')"
  by (simp_all add: form_get_def form_example_def str_def)

lemma offline_generate:
  "generate offline_world prompt n = (Inr (str ''I cannot help with that.''), Suc n)"
  by (simp add: generate_def offline_world_def)

lemma offline_response_data:
  "response_data (JString (str ''Paris, France'')) description_text default_draft
     (get_fallback_flights (str ''New York'') (str ''Paris'') d r)
     (get_fallback_hotels (str ''Paris'')) (fallback_forecast 738886)
   = Inr (offline_response description_text d r)"
  by (simp add: response_data_def default_draft_def offline_response_def str_def)

lemma description_texts:
  "str ''Your perfect '' @ str ''relaxed'' @ str '' getaway awaits!''
     = str ''Your perfect relaxed getaway awaits!''"
  "str ''Surprise! Your next adventure awaits in '' @ str ''Paris, France'' @ str ''!''
     = str ''Surprise! Your next adventure awaits in Paris, France!''"
  by (simp_all add: str_def)

lemma offline_itinerary_flow:
  "itinerary_flow offline_world form_example 0 = (Inr (offline_itinerary_body, 200), 2)"
  by (simp add: itinerary_flow_def io_bind_def io_lift_def io_return_def form_example_fields
      offline_generate scenario_b default_destination paris_city return_date_example
      offline_flights offline_hotels offline_weather offline_response_data
      offline_itinerary_body_def numeral_2_eq_2 description_texts)


lemma offline_choice:
  "random_choice offline_world surprise_destinations n = (Inr (str ''Kyoto, Japan''), Suc n)"
  by (simp add: random_choice_def offline_world_def surprise_destinations_def)

lemma offline_now: "now offline_world n = (Inr 738886, Suc n)"
  by (simp add: now_def offline_world_def)

lemma offline_dates:
  "date_plus 738886 1 = Inr (str ''2024-01-02'')"
  "date_plus 738886 6 = Inr (str ''2024-01-07'')"
  by (simp_all add: calendar_eval)

lemma ticks: "Suc (Suc (Suc (Suc (Suc 0)))) = 5" "Suc (Suc 0) = 2"
  by simp_all

lemma offline_surprise_flow:
  "surprise_flow offline_world 0 = (Inr (offline_surprise_body, 200), 5)"
  by (simp add: surprise_flow_def io_bind_def io_lift_def io_return_def offline_choice
      offline_generate scenario_b default_destination paris_city offline_now offline_dates
      offline_flights offline_hotels offline_weather offline_response_data
      offline_surprise_body_def description_texts ticks)

lemma silent_itinerary_flow: "itinerary_flow silent_world [] 0 = (Inl KeyError, 0)"
  by (simp add: itinerary_flow_def io_bind_def io_lift_def form_get_def)

lemma silent_surprise_flow: "surprise_flow silent_world 0 = (Inl GenerationError, 2)"
  by (simp add: surprise_flow_def io_bind_def random_choice_def generate_def silent_world_def
      offline_world_def ticks)

section \<open>The shape of the responses\<close>

text \<open>
  Claim C8, amended. A response with status 200, of either flow, has exactly the eleven
  keys of \<open>RESPONSE_KEYS\<close>, with the success flag true: success, destination,
  description, itinerary, cuisine, estimated_cost, best_time_to_visit, packing_tips,
  flight_options, hotel_options and weather_forecast. The fun fact of the draft is not
  among them.
\<close>

theorem success_response_keys:
  "(generate_itinerary w form n = (Inr (body, 200), n') \<longrightarrow>
      keys body = RESPONSE_KEYS \<and> dict_get body (str ''success'') JNull = Inr (JBool True))
   \<and> (surprise_destination w m = (Inr (body', 200), m') \<longrightarrow>
      keys body' = RESPONSE_KEYS \<and> dict_get body' (str ''success'') JNull = Inr (JBool True))
   \<and> length RESPONSE_KEYS = 11 \<and> str ''fun_fact'' \<notin> set RESPONSE_KEYS"
proof -
  have a: "generate_itinerary w form n = (Inr (body, 200), n') \<longrightarrow>
      keys body = RESPONSE_KEYS \<and> dict_get body (str ''success'') JNull = Inr (JBool True)"
  proof
    assume r: "generate_itinerary w form n = (Inr (body, 200), n')"
    from io_try_cases [OF r [unfolded generate_itinerary_def]]
    have "itinerary_flow w form n = (Inr (body, 200), n')"
      by (auto simp: error_response_def)
    from itinerary_flow_success [OF this] show
      "keys body = RESPONSE_KEYS \<and> dict_get body (str ''success'') JNull = Inr (JBool True)"
      by simp
  qed
  have b: "surprise_destination w m = (Inr (body', 200), m') \<longrightarrow>
      keys body' = RESPONSE_KEYS \<and> dict_get body' (str ''success'') JNull = Inr (JBool True)"
  proof
    assume r: "surprise_destination w m = (Inr (body', 200), m')"
    from io_try_cases [OF r [unfolded surprise_destination_def]]
    have "surprise_flow w m = (Inr (body', 200), m')"
      by (auto simp: error_response_def)
    from surprise_flow_success [OF this] show
      "keys body' = RESPONSE_KEYS \<and> dict_get body' (str ''success'') JNull = Inr (JBool True)"
      by simp
  qed
  have c: "length RESPONSE_KEYS = 11 \<and> str ''fun_fact'' \<notin> set RESPONSE_KEYS"
    by (simp add: RESPONSE_KEYS_def str_def)
  from a b c show ?thesis by blast
qed

lemma offline_generate_itinerary:
  "generate_itinerary offline_world form_example 0 = (Inr (offline_itinerary_body, 200), 2)"
  by (simp add: generate_itinerary_def io_try_def offline_itinerary_flow)

lemma offline_surprise_destination:
  "surprise_destination offline_world 0 = (Inr (offline_surprise_body, 200), 5)"
  by (simp add: surprise_destination_def io_try_def offline_surprise_flow)

text \<open>Both flows succeed in the offline world.\<close>

theorem success_response_keys_witness:
  "generate_itinerary offline_world form_example 0 = (Inr (offline_itinerary_body, 200), 2)
   \<and> surprise_destination offline_world 0 = (Inr (offline_surprise_body, 200), 5)
   \<and> keys offline_itinerary_body = RESPONSE_KEYS
   \<and> keys offline_surprise_body = RESPONSE_KEYS"
  using success_response_keys [of offline_world form_example 0 offline_itinerary_body 2 0
      offline_surprise_body 5]
    offline_generate_itinerary offline_surprise_destination
  by simp

text \<open>
  The claim as stated fails: the draft of this run has a fun fact, the response has none.
\<close>

theorem response_without_fun_fact_counterexample:
  "fst (generate_itinerary offline_world form_example 0) = Inr (offline_itinerary_body, 200)
   \<and> dict_get offline_itinerary_body (str ''success'') JNull = Inr (JBool True)
   \<and> str ''fun_fact'' \<notin> set (keys offline_itinerary_body)"
  by (simp add: offline_generate_itinerary)
    (simp add: offline_itinerary_body_def offline_response_def str_def)

text \<open>
  Claim C9. An exception that leaves the body of either flow becomes the response with
  status 500 whose only keys are the false success flag and the error message. Every
  response is either that or the full response with status 200: there is no partial one.
\<close>

theorem top_level_failure:
  "(itinerary_flow w form n = (Inl e, n') \<longrightarrow>
      generate_itinerary w form n
        = (Inr (error_response (str ''Error generating itinerary: '' @ describe w e)), n'))
   \<and> (surprise_flow w m = (Inl e', m') \<longrightarrow>
      surprise_destination w m
        = (Inr (error_response
             (str ''An internal error occurred while generating the surprise destination.'')),
           m'))
   \<and> (\<exists>body status. fst (generate_itinerary w form n) = Inr (body, status)
        \<and> (status = 200 \<and> keys body = RESPONSE_KEYS
           \<or> (\<exists>message. (body, status) = error_response message)))
   \<and> (\<exists>body status. fst (surprise_destination w m) = Inr (body, status)
        \<and> (status = 200 \<and> keys body = RESPONSE_KEYS
           \<or> (\<exists>message. (body, status) = error_response message)))
   \<and> keys (fst (error_response message)) = [str ''success'', str ''error'']
   \<and> dict_get (fst (error_response message)) (str ''success'') JNull = Inr (JBool False)
   \<and> dict_get (fst (error_response message)) (str ''error'') JNull = Inr (JString message)
   \<and> snd (error_response message) = 500"
proof -
  have a: "itinerary_flow w form n = (Inl e, n') \<longrightarrow>
      generate_itinerary w form n
        = (Inr (error_response (str ''Error generating itinerary: '' @ describe w e)), n')"
    by (simp add: generate_itinerary_def io_try_def io_return_def)
  have b: "surprise_flow w m = (Inl e', m') \<longrightarrow>
      surprise_destination w m
        = (Inr (error_response
             (str ''An internal error occurred while generating the surprise destination.'')),
           m')"
    by (simp add: surprise_destination_def io_try_def io_return_def)
  have c: "\<exists>body status. fst (generate_itinerary w form n) = Inr (body, status)
        \<and> (status = 200 \<and> keys body = RESPONSE_KEYS
           \<or> (\<exists>message. (body, status) = error_response message))"
  proof (cases "itinerary_flow w form n")
    case (Pair r k)
    show ?thesis
    proof (cases r)
      case (Inl x)
      with Pair show ?thesis
        by (auto simp: generate_itinerary_def io_try_def io_return_def error_response_def)
    next
      case (Inr x)
      obtain bd st where x: "x = (bd, st)" by (cases x)
      from itinerary_flow_success [OF Pair [unfolded Inr x]] Pair Inr x show ?thesis
        by (simp add: generate_itinerary_def io_try_def)
    qed
  qed
  have d: "\<exists>body status. fst (surprise_destination w m) = Inr (body, status)
        \<and> (status = 200 \<and> keys body = RESPONSE_KEYS
           \<or> (\<exists>message. (body, status) = error_response message))"
  proof (cases "surprise_flow w m")
    case (Pair r k)
    show ?thesis
    proof (cases r)
      case (Inl x)
      with Pair show ?thesis
        by (auto simp: surprise_destination_def io_try_def io_return_def error_response_def)
    next
      case (Inr x)
      obtain bd st where x: "x = (bd, st)" by (cases x)
      from surprise_flow_success [OF Pair [unfolded Inr x]] Pair Inr x show ?thesis
        by (simp add: surprise_destination_def io_try_def)
    qed
  qed
  from a b c d error_response_shape [of message] show ?thesis by blast
qed

text \<open>
  With an empty form the directed flow raises at the first field; with a generator that
  raises, the surprise flow raises at its second effect.
\<close>

theorem top_level_failure_witness:
  "itinerary_flow silent_world [] 0 = (Inl KeyError, 0)
   \<and> generate_itinerary silent_world [] 0
       = (Inr (error_response (str ''Error generating itinerary: error'')), 0)
   \<and> surprise_flow silent_world 0 = (Inl GenerationError, 2)
   \<and> surprise_destination silent_world 0
       = (Inr (error_response
            (str ''An internal error occurred while generating the surprise destination.'')),
          2)"
proof -
  have d: "str ''Error generating itinerary: '' @ describe silent_world KeyError
      = str ''Error generating itinerary: error''"
    by (simp add: silent_world_def offline_world_def str_def)
  from top_level_failure [of silent_world "[]" 0 KeyError 0 0 GenerationError 2]
    silent_itinerary_flow silent_surprise_flow d
  show ?thesis by simp
qed

section \<open>The surprise flow\<close>





section \<open>The return date of the directed flow\<close>

subsection \<open>Ordinals and dates\<close>

text \<open>
  The days before a year whose number is written in cycles of 400, 100 and 4 years, and
  the leap years among them.
\<close>

lemma dby_form:
  assumes "b \<le> 3" "c \<le> 24" "d \<le> 3"
  shows "days_before_year (400 * a + 100 * b + 4 * c + d + 1)
    = 146097 * a + 36524 * b + 1461 * c + 365 * d"
proof -
  let ?y = "400 * a + 100 * b + 4 * c + d"
  have d4: "?y div 4 = 100 * a + 25 * b + c" using assms by linarith
  have d100: "?y div 100 = 4 * a + b" using assms by linarith
  have d400: "?y div 400 = a" using assms by linarith
  show ?thesis
    by (simp add: days_before_year_def Let_def d4 d100 d400)
qed

lemma leap_form:
  assumes "b \<le> 3" "c \<le> 24" "d \<le> 3"
  shows "is_leap (400 * a + 100 * b + 4 * c + d + 1) \<longleftrightarrow> d = 3 \<and> (c \<noteq> 24 \<or> b = 3)"
proof -
  let ?y = "400 * a + 100 * b + 4 * c + d + 1"
  have "?y = (d + 1) + 4 * (100 * a + 25 * b + c)" by simp
  then have m4: "?y mod 4 = (d + 1) mod 4" by (simp only: mod_mult_self2)
  have "?y = (4 * c + d + 1) + 100 * (4 * a + b)" by simp
  then have m100: "?y mod 100 = (4 * c + d + 1) mod 100" by (simp only: mod_mult_self2)
  have "?y = (100 * b + 4 * c + d + 1) + 400 * a" by simp
  then have m400: "?y mod 400 = (100 * b + 4 * c + d + 1) mod 400" by (simp only: mod_mult_self2)
  have e4: "(d + 1) mod 4 = 0 \<longleftrightarrow> d = 3"
  proof (cases "d + 1 = 4")
    case True
    then show ?thesis by auto
  next
    case False
    with assms have "d + 1 < 4" by linarith
    then have "(d + 1) mod 4 = d + 1" by (rule mod_less)
    with False show ?thesis by auto
  qed
  have e100: "(4 * c + d + 1) mod 100 = 0 \<longleftrightarrow> c = 24 \<and> d = 3"
  proof (cases "4 * c + d + 1 = 100")
    case True
    with assms(3) have "c = 24 \<and> d = 3" by presburger
    with True show ?thesis by simp
  next
    case False
    with assms have "4 * c + d + 1 < 100" by linarith
    then have "(4 * c + d + 1) mod 100 = 4 * c + d + 1" by (rule mod_less)
    with False show ?thesis by auto
  qed
  have e400: "(100 * b + 4 * c + d + 1) mod 400 = 0 \<longleftrightarrow> b = 3 \<and> c = 24 \<and> d = 3"
  proof (cases "100 * b + 4 * c + d + 1 = 400")
    case True
    with assms have "4 * c + d + 1 = 100 \<and> b = 3" by linarith
    with assms(3) have "b = 3 \<and> c = 24 \<and> d = 3" by presburger
    with True show ?thesis by simp
  next
    case False
    with assms have "100 * b + 4 * c + d + 1 < 400" by linarith
    then have "(100 * b + 4 * c + d + 1) mod 400 = 100 * b + 4 * c + d + 1" by (rule mod_less)
    with False show ?thesis by auto
  qed
  show ?thesis unfolding is_leap_def m4 m100 m400 e4 e100 e400 by blast
qed

lemma month_day_case:
  assumes "(n + 50) div 32 = k" "1 \<le> k" "k \<le> 12" "n < 365"
  shows "month_day_ok leapyear n"
proof -
  from assms(1) have b: "32 * k \<le> n + 50" "n + 50 < 32 * k + 32" by linarith+
  from assms(2,3) have "k = 1 \<or> k = 2 \<or> k = 3 \<or> k = 4 \<or> k = 5 \<or> k = 6
    \<or> k = 7 \<or> k = 8 \<or> k = 9 \<or> k = 10 \<or> k = 11 \<or> k = 12"
    by presburger
  then consider "k = 1" | "k = 2" | "k = 3" | "k = 4" | "k = 5" | "k = 6"
    | "k = 7" | "k = 8" | "k = 9" | "k = 10" | "k = 11" | "k = 12"
    by blast
  then show ?thesis
    by cases
      (insert assms(1,4) b,
       auto simp: month_day_ok_def month_of_def day_of_def Let_def DAYS_BEFORE_MONTH_def
         DAYS_IN_MONTH_def)
qed

lemma month_day_in_year:
  assumes "n < 365"
  shows "month_day_ok leapyear n"
proof -
  from assms have "1 \<le> (n + 50) div 32" "(n + 50) div 32 \<le> 12" by linarith+
  with assms show ?thesis using month_day_case [of n "(n + 50) div 32"] by simp
qed

lemma ord2ymd_roundtrip:
  assumes "1 \<le> n" "n \<le> MAXORDINAL"
  shows "valid_date (ord2ymd n) \<and> ymd2ord (ord2ymd n) = n"
proof -
  define m where "m = n - 1"
  define a where "a = m div 146097"
  define r1 where "r1 = m mod 146097"
  define b where "b = r1 div 36524"
  define r2 where "r2 = r1 mod 36524"
  define c where "c = r2 div 1461"
  define r3 where "r3 = r2 mod 1461"
  define d where "d = r3 div 365"
  define r4 where "r4 = r3 mod 365"
  have dec: "m = 146097 * a + r1" "r1 = 36524 * b + r2" "r2 = 1461 * c + r3" "r3 = 365 * d + r4"
    by (simp_all add: a_def r1_def b_def r2_def c_def r3_def d_def r4_def)
  have bnd: "r1 < 146097" "r2 < 36524" "r3 < 1461" "r4 < 365"
    by (simp_all add: r1_def r2_def r3_def r4_def)
  from assms have n: "n = m + 1" "m \<le> 3652058" by (simp_all add: m_def MAXORDINAL_def)
  from dec bnd have le: "b \<le> 4" "c \<le> 24" "d \<le> 4" by linarith+
  let ?leap = "d = 3 \<and> (c \<noteq> 24 \<or> b = 3)"
  let ?year = "a * 400 + 1 + b * 100 + c * 4 + d"
  have o: "ord2ymd n =
      (if d = 4 \<or> b = 4 then (?year - 1, 12, 31)
       else (?year, month_of ?leap r4, day_of ?leap r4))"
    unfolding ord2ymd_def month_of_def day_of_def Let_def m_def [symmetric] a_def [symmetric]
      r1_def [symmetric] b_def [symmetric] r2_def [symmetric] c_def [symmetric]
      r3_def [symmetric] d_def [symmetric] r4_def [symmetric]
    by simp
  show ?thesis
  proof (cases "b = 4")
    case True
    with dec bnd have z: "r2 = 0" "c = 0" "d = 0" "r4 = 0" "r3 = 0" by linarith+
    from True z dec have m: "m = 146097 * a + 146096" by linarith
    from True z o have r: "ord2ymd n = (400 * a + 3 * 100 + 4 * 24 + 3 + 1, 12, 31)" by simp
    have y: "days_before_year (400 * a + 100 * 3 + 4 * 24 + 3 + 1)
        = 146097 * a + 36524 * 3 + 1461 * 24 + 365 * 3"
      by (rule dby_form) simp_all
    have l: "is_leap (400 * a + 100 * 3 + 4 * 24 + 3 + 1)"
      using leap_form [of 3 24 3 a] by simp
    from m n have "a \<le> 23" by linarith
    with r y l m n show ?thesis
      by (simp add: ymd2ord_def valid_date_def days_before_month_def days_in_month_def
          DAYS_BEFORE_MONTH_def DAYS_IN_MONTH_def)
  next
    case False
    with le have b3: "b \<le> 3" by simp
    show ?thesis
    proof (cases "d = 4")
      case True
      with dec bnd have z: "r4 = 0" "r3 = 1460" by linarith+
      with dec bnd have c23: "c \<le> 23" by linarith
      from True z dec have m: "m = 146097 * a + 36524 * b + 1461 * c + 1460" by linarith
      from True o have r: "ord2ymd n = (400 * a + 100 * b + 4 * c + 3 + 1, 12, 31)"
        by (simp add: mult.commute)
      have y: "days_before_year (400 * a + 100 * b + 4 * c + 3 + 1)
          = 146097 * a + 36524 * b + 1461 * c + 365 * 3"
        using b3 c23 by (intro dby_form) simp_all
      have l: "is_leap (400 * a + 100 * b + 4 * c + 3 + 1)"
        using leap_form [of b c 3 a] b3 c23 by simp
      from m n b3 c23 have "400 * a + 100 * b + 4 * c + 3 + 1 \<le> 9999" by linarith
      with r y l m n show ?thesis
        by (simp add: ymd2ord_def valid_date_def days_before_month_def days_in_month_def
            DAYS_BEFORE_MONTH_def DAYS_IN_MONTH_def)
    next
      case d4: False
      with le have d3: "d \<le> 3" by simp
      have yr: "?year = 400 * a + 100 * b + 4 * c + d + 1" by simp
      have y: "days_before_year ?year = 146097 * a + 36524 * b + 1461 * c + 365 * d"
        unfolding yr using b3 le(2) d3 by (rule dby_form)
      have l: "is_leap ?year \<longleftrightarrow> ?leap"
        unfolding yr using b3 le(2) d3 by (rule leap_form)
      from dec have m: "m = 146097 * a + 36524 * b + 1461 * c + 365 * d + r4" by linarith
      with n b3 le(2) d3 have y9: "?year \<le> 9999" by linarith
      have y1: "1 \<le> ?year" by simp
      define Y where "Y = ?year"
      define L where "L \<longleftrightarrow> ?leap"
      define mo where "mo = month_of L r4"
      define dy where "dy = day_of L r4"
      from month_day_in_year [OF bnd(4), of L]
      have md: "1 \<le> mo" "mo \<le> 12" "1 \<le> dy"
        "dy \<le> (if mo = 2 \<and> L then 29 else DAYS_IN_MONTH ! mo)"
        "DAYS_BEFORE_MONTH ! mo + (if 2 < mo \<and> L then 1 else 0) + dy = r4 + 1"
        unfolding month_day_ok_def mo_def dy_def by blast+
      from False d4 o have r: "ord2ymd n = (Y, mo, dy)"
        by (simp add: Y_def L_def mo_def dy_def)
      from y have y': "days_before_year Y = 146097 * a + 36524 * b + 1461 * c + 365 * d"
        by (simp only: Y_def)
      from l have l': "is_leap Y \<longleftrightarrow> L" by (simp only: Y_def L_def)
      from y1 y9 have yb: "1 \<le> Y" "Y \<le> 9999" by (simp_all only: Y_def)
      have v: "valid_date (Y, mo, dy)"
        using yb md(1-4) by (simp add: valid_date_def days_in_month_def l')
      have "ymd2ord (Y, mo, dy)
          = days_before_year Y + (DAYS_BEFORE_MONTH ! mo + (if 2 < mo \<and> L then 1 else 0)) + dy"
        by (simp add: ymd2ord_def days_before_month_def l')
      also have "\<dots> = n" unfolding y' using md(5) m n by linarith
      finally show ?thesis using v r by simp
    qed
  qed
qed

text \<open>
  The ordinal counts the days: the first day of the next year, and of the next month,
  follows the last day of this one, so that the ordinal grows with the date, no two dates
  share one, and the dates from 0001-01-01 to 9999-12-31 have the ordinals from 1 to
  \<open>MAXORDINAL\<close>.
\<close>

lemma dby_succ:
  "days_before_year (Suc (Suc k))
     = days_before_year (Suc k) + 365 + (if is_leap (Suc k) then 1 else 0)"
proof -
  define p q r where "p = k div 4" and "q = k div 100" and "r = k div 400"
  have le: "q \<le> p" unfolding p_def q_def by linarith
  have "(4 :: nat) dvd 100" "(100 :: nat) dvd 400" by simp_all
  then have a: "Suc k mod 100 = 0 \<Longrightarrow> Suc k mod 4 = 0"
    and b: "Suc k mod 400 = 0 \<Longrightarrow> Suc k mod 100 = 0"
    unfolding mod_eq_0_iff_dvd by (blast intro: dvd_trans)+
  have s: "Suc k div 4 = (if Suc k mod 4 = 0 then Suc p else p)"
    "Suc k div 100 = (if Suc k mod 100 = 0 then Suc q else q)"
    "Suc k div 400 = (if Suc k mod 400 = 0 then Suc r else r)"
    unfolding p_def q_def r_def by (simp_all only: div_Suc)
  have e: "days_before_year (Suc (Suc k)) = Suc k * 365 + Suc k div 4 - Suc k div 100 + Suc k div 400"
    "days_before_year (Suc k) = k * 365 + p - q + r"
    by (simp_all add: days_before_year_def Let_def p_def q_def r_def)
  show ?thesis
    unfolding e is_leap_def s using le a b
    by (cases "Suc k mod 4 = 0"; cases "Suc k mod 100 = 0"; cases "Suc k mod 400 = 0") simp_all
qed

lemma dby_mono:
  assumes "1 \<le> y" "y < y'"
  shows "days_before_year y + 365 + (if is_leap y then 1 else 0) \<le> days_before_year y'"
  using assms(2,1)
proof (induction rule: strict_inc_induct)
  case (base i)
  then obtain k where "i = Suc k" by (cases i) simp_all
  with base show ?case using dby_succ [of k] by simp
next
  case (step i)
  then obtain k where "i = Suc k" by (cases i) simp_all
  with step show ?case using dby_succ [of k] dby_succ [of "Suc k"] by simp
qed

lemma dbm_succ:
  assumes "1 \<le> m" "m \<le> 11"
  shows "days_before_month y (Suc m) = days_before_month y m + days_in_month y m"
proof -
  from assms have "m = 1 \<or> m = 2 \<or> m = 3 \<or> m = 4 \<or> m = 5 \<or> m = 6 \<or> m = 7 \<or> m = 8
      \<or> m = 9 \<or> m = 10 \<or> m = 11" by presburger
  then show ?thesis
    by (auto simp add: days_before_month_def days_in_month_def DAYS_BEFORE_MONTH_def
        DAYS_IN_MONTH_def eval_nat_numeral)
qed

lemma dbm_mono:
  assumes "m < m'" "1 \<le> m" "m' \<le> 12"
  shows "days_before_month y m + days_in_month y m \<le> days_before_month y m'"
  using assms
proof (induction rule: strict_inc_induct)
  case (base i)
  then show ?case using dbm_succ [of i y] by simp
next
  case (step i)
  then show ?case using dbm_succ [of i y] by simp
qed

lemma dbm_last: "days_before_month y 12 + days_in_month y 12 = 365 + (if is_leap y then 1 else 0)"
  by (simp add: days_before_month_def days_in_month_def DAYS_BEFORE_MONTH_def DAYS_IN_MONTH_def)

lemma day_of_year_bounds:
  assumes "valid_date (y, m, d)"
  shows "1 \<le> days_before_month y m + d"
    and "days_before_month y m + d \<le> 365 + (if is_leap y then 1 else 0)"
proof -
  from assms have b: "1 \<le> m" "m \<le> 12" "1 \<le> d" "d \<le> days_in_month y m"
    by (simp_all add: valid_date_def)
  from b show "1 \<le> days_before_month y m + d" by simp
  show "days_before_month y m + d \<le> 365 + (if is_leap y then 1 else 0)"
  proof (cases "m = 12")
    case True
    with b(4) dbm_last [of y] show ?thesis by simp
  next
    case False
    with b have "m < 12" by simp
    from dbm_mono [OF this b(1), of y] dbm_last [of y] b(4) show ?thesis by simp
  qed
qed

lemma ymd2ord_strict_mono:
  assumes v1: "valid_date (y1, m1, d1)" and v2: "valid_date (y2, m2, d2)"
    and lt: "y1 < y2 \<or> y1 = y2 \<and> (m1 < m2 \<or> m1 = m2 \<and> d1 < d2)"
  shows "ymd2ord (y1, m1, d1) < ymd2ord (y2, m2, d2)"
proof -
  from v1 have b1: "1 \<le> y1" "1 \<le> m1" "m1 \<le> 12" "1 \<le> d1" "d1 \<le> days_in_month y1 m1"
    by (simp_all add: valid_date_def)
  from v2 have b2: "1 \<le> y2" "1 \<le> m2" "m2 \<le> 12" "1 \<le> d2" "d2 \<le> days_in_month y2 m2"
    by (simp_all add: valid_date_def)
  from lt consider "y1 < y2" | "y1 = y2" "m1 < m2" | "y1 = y2" "m1 = m2" "d1 < d2" by blast
  then show ?thesis
  proof cases
    case 1
    from dby_mono [OF b1(1) 1] day_of_year_bounds(2) [OF v1] b2(4)
    show ?thesis by (simp add: ymd2ord_def)
  next
    case 2
    from dbm_mono [OF 2(2) b1(2) b2(3), of y1] b1(5) b2(4) 2(1)
    show ?thesis by (simp add: ymd2ord_def)
  next
    case 3
    then show ?thesis by (simp add: ymd2ord_def)
  qed
qed

lemma ymd2ord_inj:
  assumes "valid_date a" "valid_date b" "ymd2ord a = ymd2ord b"
  shows "a = b"
proof -
  obtain y1 m1 d1 where a: "a = (y1, m1, d1)" by (cases a)
  obtain y2 m2 d2 where b: "b = (y2, m2, d2)" by (cases b)
  have "\<not> (y1 < y2 \<or> y1 = y2 \<and> (m1 < m2 \<or> m1 = m2 \<and> d1 < d2))"
    using ymd2ord_strict_mono [of y1 m1 d1 y2 m2 d2] assms unfolding a b by auto
  moreover have "\<not> (y2 < y1 \<or> y2 = y1 \<and> (m2 < m1 \<or> m2 = m1 \<and> d2 < d1))"
    using ymd2ord_strict_mono [of y2 m2 d2 y1 m1 d1] assms unfolding a b by auto
  ultimately show ?thesis unfolding a b by auto
qed

lemma ymd2ord_range:
  assumes "valid_date a"
  shows "1 \<le> ymd2ord a" and "ymd2ord a \<le> MAXORDINAL"
proof -
  obtain y m d where a: "a = (y, m, d)" by (cases a)
  from assms have b: "1 \<le> y" "y \<le> 9999" "1 \<le> d" by (simp_all add: a valid_date_def)
  from b(3) show "1 \<le> ymd2ord a" by (simp add: a ymd2ord_def)
  have last: "days_before_year 9999 + 365 + (if is_leap 9999 then 1 else 0) = MAXORDINAL"
    by (simp add: days_before_year_def is_leap_def MAXORDINAL_def)
  have "days_before_year y + (365 + (if is_leap y then 1 else 0)) \<le> MAXORDINAL"
  proof (cases "y = 9999")
    case True
    with last show ?thesis by simp
  next
    case False
    with b have "y < 9999" by simp
    from dby_mono [OF b(1) this] last show ?thesis by simp
  qed
  with day_of_year_bounds(2) [of y m d] assms show "ymd2ord a \<le> MAXORDINAL"
    by (simp add: a ymd2ord_def)
qed

subsection \<open>Formatting and parsing\<close>










lemma ord2ymd_ymd2ord:
  assumes "valid_date d"
  shows "ord2ymd (ymd2ord d) = d"
proof -
  from ord2ymd_roundtrip [OF ymd2ord_range [OF assms]]
  have "valid_date (ord2ymd (ymd2ord d))" "ymd2ord (ord2ymd (ymd2ord d)) = ymd2ord d"
    by simp_all
  with assms show ?thesis by (intro ymd2ord_inj)
qed

subsection \<open>The return date\<close>




end
